theory Spec2Isabelle
  imports Complex_Main "HOL-Library.Sublist"
begin

section \<open>Data model\<close>

text \<open>
  The duplication engine of \<^verbatim>\<open>duplicate-to-all-pages.ts\<close> works on plain page and
  annotation objects. A TypeScript \<^verbatim>\<open>number\<close> that holds a coordinate or an extent is a
  \<^typ>\<open>real\<close> here (the data model of the specification calls them real-valued): the
  IEEE special values are outside the model, and arithmetic is exact. The rounding of the
  engine's one subtraction is modelled apart, in the subsection on the subtraction of
  doubles, and used where it decides a property. A page index is an \<^typ>\<open>int\<close>.

  Field names are the source's, except where two objects share a field name or the name
  is a constant of HOL: \<^verbatim>\<open>Rect.size\<close> is \<open>size_rect\<close>, \<^verbatim>\<open>PdfPageObject.size\<close> is
  \<open>size_page\<close>, and an annotation's \<^verbatim>\<open>id\<close> is \<open>id_anno\<close>.
\<close>

record Position =
  x :: real
  y :: real

record Size =
  width :: real
  height :: real

record Rect =
  origin :: Position
  size_rect :: Size

datatype Rotation = Degree0 | Degree90 | Degree180 | Degree270

record PdfPageObject =
  index :: int
  size_page :: Size
  rotation :: Rotation

record PdfInkListObject =
  points :: "Position list"

record LinePoints =
  start :: Position
  end_pt :: Position

text \<open>
  \<^verbatim>\<open>PdfAnnotationObject\<close> is a union of object types discriminated by the field
  \<^verbatim>\<open>type\<close>. The engine switches on four members of \<^verbatim>\<open>PdfAnnotationSubtype\<close>, each of
  which carries its own coordinate data (\<^verbatim>\<open>inkList\<close>, \<^verbatim>\<open>vertices\<close>, \<^verbatim>\<open>linePoints\<close>);
  every other subtype falls to the \<^verbatim>\<open>default\<close> branch, where only \<^verbatim>\<open>rect\<close> is read.
  The discriminant and the data it selects are one value of the datatype \<open>Shape\<close>, so
  an ink annotation without an ink list is excluded as the TypeScript types exclude it.
\<close>

datatype SimpleSubtype = SQUARE | CIRCLE | STAMP | OtherSubtype nat

datatype Shape =
    INK "PdfInkListObject list"
  | POLYGON "Position list"
  | POLYLINE "Position list"
  | LINE LinePoints
  | Simple SimpleSubtype

datatype PdfAnnotationBorderStyle = SOLID | OtherBorderStyle nat

datatype PdfAnnotationIcon = Draft | OtherIcon nat

text \<open>
  The fields the engine writes (\<^verbatim>\<open>id\<close>, \<^verbatim>\<open>pageIndex\<close>, \<^verbatim>\<open>created\<close>, \<^verbatim>\<open>rect\<close> and the
  shape data) and the styling attributes named by the tests. All functions below take
  the extensible record, whose \<open>more\<close> part stands for every further attribute an
  annotation object may carry: the object spread \<^verbatim>\<open>{...annotation, rect: r}\<close> is a record
  update, which leaves it alone. \<^verbatim>\<open>created\<close> is a \<^verbatim>\<open>Date\<close>, kept as its epoch
  milliseconds.
\<close>

record PdfAnnotationObject =
  id_anno :: string
  pageIndex :: int
  created :: "int option"
  rect :: Rect
  shape :: Shape
  color :: "string option"
  strokeColor :: "string option"
  strokeWidth :: "real option"
  strokeStyle :: "PdfAnnotationBorderStyle option"
  opacity :: "real option"
  flags :: "string list option"
  icon :: "PdfAnnotationIcon option"

record 'a DuplicateAnnotationResult =
  annotations :: "'a PdfAnnotationObject_scheme list"
  clippedPages :: "int list"

text \<open>
  \<^verbatim>\<open>includeSourcePage?: boolean\<close>: the field may be absent. A call without the
  \<^verbatim>\<open>options\<close> argument gets the default \<^verbatim>\<open>{}\<close>, which is \<open>no_options\<close>.
\<close>

record DuplicateAnnotationOptions =
  includeSourcePage :: "bool option"

definition no_options :: DuplicateAnnotationOptions where
  "no_options = \<lparr>includeSourcePage = None\<rparr>"

subsection \<open>The world outside the engine\<close>

text \<open>
  The engine has three effects: it draws identifiers from \<^verbatim>\<open>uuidV4\<close>, it reads the
  clock with \<^verbatim>\<open>new Date()\<close>, and it writes warnings with \<^verbatim>\<open>console.warn\<close>. The package
  that defines \<^verbatim>\<open>uuidV4\<close> is not part of the sources, and the clock is not a function of
  the program, so both are parameters: \<open>uuid k\<close> is the string the generator hands out at
  its \<open>k\<close>-th call and \<open>clock k\<close> the time at the \<open>k\<close>-th reading. The state counts the
  calls made so far and keeps the warnings written. A warning is kept as the values its
  message text is built from.
\<close>

datatype Diagnostic = ClipWarning string int real real

record World =
  idsDrawn :: nat
  clockReads :: nat
  console :: "Diagnostic list"

datatype error = Error string

section \<open>The engine\<close>

definition getRotatedPageSize :: "PdfPageObject \<Rightarrow> Size" where
  "getRotatedPageSize page =
     (let isRotated90or270 = (rotation page = Degree90 \<or> rotation page = Degree270)
      in if isRotated90or270
         then \<lparr>width = height (size_page page), height = width (size_page page)\<rparr>
         else \<lparr>width = width (size_page page), height = height (size_page page)\<rparr>)"

text \<open>\<^verbatim>\<open>Math.max(min, Math.min(max, value))\<close>; the arguments are in the source's order.\<close>

definition clamp :: "real \<Rightarrow> real \<Rightarrow> real \<Rightarrow> real" where
  "clamp v lo hi = max lo (min hi v)"

text \<open>
  The two clippers return an object of a result and the flag \<^verbatim>\<open>wasClipped\<close>; the object
  is a pair here, result first.
\<close>

definition clipRectToPageBounds :: "Rect \<Rightarrow> Size \<Rightarrow> Rect \<times> bool" where
  "clipRectToPageBounds r pageSize =
     (let maxX = width pageSize;
          maxY = height pageSize;
          clippedX = clamp (x (origin r)) 0 maxX;
          clippedY = clamp (y (origin r)) 0 maxY;
          maxWidth = maxX - clippedX;
          maxHeight = maxY - clippedY;
          clippedWidth = min (width (size_rect r)) maxWidth;
          clippedHeight = min (height (size_rect r)) maxHeight;
          clippedRect = \<lparr>origin = \<lparr>x = clippedX, y = clippedY\<rparr>,
                         size_rect = \<lparr>width = max 0 clippedWidth, height = max 0 clippedHeight\<rparr>\<rparr>;
          wasClipped = (clippedX \<noteq> x (origin r) \<or> clippedY \<noteq> y (origin r) \<or>
                        clippedWidth \<noteq> width (size_rect r) \<or>
                        clippedHeight \<noteq> height (size_rect r))
      in (clippedRect, wasClipped))"

definition clipPositionToPageBounds :: "Position \<Rightarrow> Size \<Rightarrow> Position \<times> bool" where
  "clipPositionToPageBounds position pageSize =
     (let clippedX = clamp (x position) 0 (width pageSize);
          clippedY = clamp (y position) 0 (height pageSize)
      in (\<lparr>x = clippedX, y = clippedY\<rparr>, clippedX \<noteq> x position \<or> clippedY \<noteq> y position))"

definition transformRectForTargetPage ::
  "Rect \<Rightarrow> PdfPageObject \<Rightarrow> PdfPageObject \<Rightarrow> Rect \<times> bool" where
  "transformRectForTargetPage r sourcePage targetPage =
     (let targetSize = getRotatedPageSize targetPage
      in clipRectToPageBounds r targetSize)"

definition transformPositionForTargetPage ::
  "Position \<Rightarrow> PdfPageObject \<Rightarrow> PdfPageObject \<Rightarrow> Position \<times> bool" where
  "transformPositionForTargetPage position sourcePage targetPage =
     (let targetSize = getRotatedPageSize targetPage
      in clipPositionToPageBounds position targetSize)"

text \<open>
  The transformers of the four path-like kinds. The source maps a closure over the
  points that also sets a local flag when a point was clipped; here the clip results are
  mapped first and the flag is read off them. Each function takes the annotation and the
  data its kind carries, and returns the updated annotation and the flag.
\<close>

definition transformInkAnnotation ::
  "'a PdfAnnotationObject_scheme \<Rightarrow> PdfInkListObject list \<Rightarrow> PdfPageObject \<Rightarrow> PdfPageObject
     \<Rightarrow> 'a PdfAnnotationObject_scheme \<times> bool" where
  "transformInkAnnotation annotation inkList sourcePage targetPage =
     (let targetSize = getRotatedPageSize targetPage;
          results = map (\<lambda>ink. map (\<lambda>point. clipPositionToPageBounds point targetSize)
                                     (points ink)) inkList;
          transformedInkList = map (\<lambda>rs. \<lparr>points = map fst rs\<rparr>) results;
          pointClipped = list_ex (\<lambda>rs. list_ex snd rs) results;
          rectResult = transformRectForTargetPage (rect annotation) sourcePage targetPage;
          wasClipped = (pointClipped \<or> snd rectResult)
      in (annotation\<lparr>shape := INK transformedInkList, rect := fst rectResult\<rparr>, wasClipped))"

definition transformPolygonAnnotation ::
  "'a PdfAnnotationObject_scheme \<Rightarrow> Position list \<Rightarrow> PdfPageObject \<Rightarrow> PdfPageObject
     \<Rightarrow> 'a PdfAnnotationObject_scheme \<times> bool" where
  "transformPolygonAnnotation annotation vertices sourcePage targetPage =
     (let results = map (\<lambda>vertex. transformPositionForTargetPage vertex sourcePage targetPage)
                        vertices;
          transformedVertices = map fst results;
          vertexClipped = list_ex snd results;
          rectResult = transformRectForTargetPage (rect annotation) sourcePage targetPage;
          wasClipped = (vertexClipped \<or> snd rectResult)
      in (annotation\<lparr>shape := POLYGON transformedVertices, rect := fst rectResult\<rparr>,
          wasClipped))"

definition transformPolylineAnnotation ::
  "'a PdfAnnotationObject_scheme \<Rightarrow> Position list \<Rightarrow> PdfPageObject \<Rightarrow> PdfPageObject
     \<Rightarrow> 'a PdfAnnotationObject_scheme \<times> bool" where
  "transformPolylineAnnotation annotation vertices sourcePage targetPage =
     (let results = map (\<lambda>vertex. transformPositionForTargetPage vertex sourcePage targetPage)
                        vertices;
          transformedVertices = map fst results;
          vertexClipped = list_ex snd results;
          rectResult = transformRectForTargetPage (rect annotation) sourcePage targetPage;
          wasClipped = (vertexClipped \<or> snd rectResult)
      in (annotation\<lparr>shape := POLYLINE transformedVertices, rect := fst rectResult\<rparr>,
          wasClipped))"

definition transformLineAnnotation ::
  "'a PdfAnnotationObject_scheme \<Rightarrow> LinePoints \<Rightarrow> PdfPageObject \<Rightarrow> PdfPageObject
     \<Rightarrow> 'a PdfAnnotationObject_scheme \<times> bool" where
  "transformLineAnnotation annotation linePoints sourcePage targetPage =
     (let startResult = transformPositionForTargetPage (start linePoints) sourcePage targetPage;
          endResult = transformPositionForTargetPage (end_pt linePoints) sourcePage targetPage;
          rectResult = transformRectForTargetPage (rect annotation) sourcePage targetPage;
          wasClipped = ((snd startResult \<or> snd endResult) \<or> snd rectResult)
      in (annotation\<lparr>shape := LINE \<lparr>start = fst startResult, end_pt = fst endResult\<rparr>,
                       rect := fst rectResult\<rparr>,
          wasClipped))"

definition transformAnnotationForTargetPage ::
  "'a PdfAnnotationObject_scheme \<Rightarrow> PdfPageObject \<Rightarrow> PdfPageObject
     \<Rightarrow> 'a PdfAnnotationObject_scheme \<times> bool" where
  "transformAnnotationForTargetPage annotation sourcePage targetPage =
     (case shape annotation of
        INK inkList \<Rightarrow> transformInkAnnotation annotation inkList sourcePage targetPage
      | POLYGON vertices \<Rightarrow> transformPolygonAnnotation annotation vertices sourcePage targetPage
      | POLYLINE vertices \<Rightarrow> transformPolylineAnnotation annotation vertices sourcePage targetPage
      | LINE linePoints \<Rightarrow> transformLineAnnotation annotation linePoints sourcePage targetPage
      | Simple _ \<Rightarrow>
          (let rectResult = transformRectForTargetPage (rect annotation) sourcePage targetPage
           in (annotation\<lparr>rect := fst rectResult\<rparr>, snd rectResult)))"

text \<open>
  \<^verbatim>\<open>createDuplicateAnnotation\<close> draws one identifier and reads the clock once; the world
  after the call is the third component of the result.
\<close>

definition createDuplicateAnnotation ::
  "(nat \<Rightarrow> string) \<Rightarrow> (nat \<Rightarrow> int) \<Rightarrow> 'a PdfAnnotationObject_scheme \<Rightarrow> PdfPageObject
     \<Rightarrow> PdfPageObject \<Rightarrow> World \<Rightarrow> 'a PdfAnnotationObject_scheme \<times> bool \<times> World" where
  "createDuplicateAnnotation uuid clock sourceAnnotation sourcePage targetPage w =
     (let (transformedAnnotation, wasClipped) =
            transformAnnotationForTargetPage sourceAnnotation sourcePage targetPage;
          duplicatedAnnotation = transformedAnnotation
            \<lparr>id_anno := uuid (idsDrawn w),
             pageIndex := index targetPage,
             created := Some (clock (clockReads w))\<rparr>
      in (duplicatedAnnotation, wasClipped,
          w\<lparr>idsDrawn := Suc (idsDrawn w), clockReads := Suc (clockReads w)\<rparr>))"

text \<open>
  The body of the \<^verbatim>\<open>for (const targetPage of pages)\<close> loop, with the two arrays it
  pushes to and the world as the loop state.
\<close>

fun duplicateLoop ::
  "(nat \<Rightarrow> string) \<Rightarrow> (nat \<Rightarrow> int) \<Rightarrow> 'a PdfAnnotationObject_scheme \<Rightarrow> PdfPageObject \<Rightarrow> bool
     \<Rightarrow> PdfPageObject list
     \<Rightarrow> 'a PdfAnnotationObject_scheme list \<times> int list \<times> World
     \<Rightarrow> 'a PdfAnnotationObject_scheme list \<times> int list \<times> World" where
  "duplicateLoop uuid clock sourceAnnotation sourcePage incl [] st = st"
| "duplicateLoop uuid clock sourceAnnotation sourcePage incl (targetPage # rest) (annos, clipped, w) =
     (if \<not> incl \<and> index targetPage = pageIndex sourceAnnotation
      then duplicateLoop uuid clock sourceAnnotation sourcePage incl rest (annos, clipped, w)
      else
        (let (annotation, wasClipped, w1) =
               createDuplicateAnnotation uuid clock sourceAnnotation sourcePage targetPage w
         in if wasClipped
            then duplicateLoop uuid clock sourceAnnotation sourcePage incl rest
                   (annos @ [annotation], clipped @ [index targetPage],
                    w1\<lparr>console := console w1 @
                       [ClipWarning (id_anno sourceAnnotation) (index targetPage)
                          (width (size_page targetPage)) (height (size_page targetPage))]\<rparr>)
            else duplicateLoop uuid clock sourceAnnotation sourcePage incl rest
                   (annos @ [annotation], clipped, w1)))"

text \<open>
  The message of the error thrown when the source page is missing ends with the page
  index, printed as JavaScript prints an integer (of a magnitude below \<open>10\<^sup>2\<^sup>1\<close>):
  decimal digits, with a minus sign for a negative number.
\<close>

fun digits :: "nat \<Rightarrow> string" where
  "digits n = (if n < 10 then [char_of (48 + n)]
               else digits (n div 10) @ [char_of (48 + n mod 10)])"

definition number_to_string :: "int \<Rightarrow> string" where
  "number_to_string i = (if i < 0 then CHR ''-'' # digits (nat (- i)) else digits (nat i))"

definition generateDuplicateAnnotations ::
  "(nat \<Rightarrow> string) \<Rightarrow> (nat \<Rightarrow> int) \<Rightarrow> 'a PdfAnnotationObject_scheme \<Rightarrow> PdfPageObject list
     \<Rightarrow> DuplicateAnnotationOptions \<Rightarrow> World
     \<Rightarrow> (error + 'a DuplicateAnnotationResult) \<times> World" where
  "generateDuplicateAnnotations uuid clock sourceAnnotation pages options w =
     (let incl = (case includeSourcePage options of None \<Rightarrow> False | Some b \<Rightarrow> b)
      in case find (\<lambda>p. index p = pageIndex sourceAnnotation) pages of
           None \<Rightarrow>
             (Inl (Error (''Source page not found for annotation on page '' @
                          number_to_string (pageIndex sourceAnnotation))), w)
         | Some sourcePage \<Rightarrow>
             (let (annos, clipped, w1) =
                    duplicateLoop uuid clock sourceAnnotation sourcePage incl pages ([], [], w)
              in (Inr \<lparr>annotations = annos, clippedPages = clipped\<rparr>, w1)))"

subsection \<open>The subtraction of doubles\<close>

text \<open>
  The numbers of the source are IEEE 754 doubles, and the one arithmetic operation of the
  engine, the subtraction in \<^verbatim>\<open>maxX - clippedX\<close> and \<^verbatim>\<open>maxY - clippedY\<close>, returns the
  double nearest to the exact difference, a tie going to the even significand.
  \<open>clipRectToPageBounds\<close> above subtracts exactly; the two agree wherever the exact
  difference is a double. \<open>round_binary64\<close> is the rounding of a real number to a double:
  53 significant bits, with the fixed spacing \<open>2 powi (- 1074)\<close> below the normal range.
  (A result beyond the largest double would be an infinity; the engine subtracts a
  clamped origin from its own upper limit and never gets there.)
  \<open>clipRectToPageBoundsWith\<close> is \<^verbatim>\<open>clipRectToPageBounds\<close> with the subtraction as an
  argument, so that it can be run with the subtraction of doubles. A number literal of
  the source, such as \<^verbatim>\<open>595.276\<close>, denotes \<open>round_binary64 595.276\<close>.
\<close>

definition round_half_even :: "real \<Rightarrow> int" where
  "round_half_even r =
     (let f = \<lfloor>r\<rfloor>; d = r - of_int f
      in if d < 1 / 2 then f
         else if 1 / 2 < d then f + 1
         else if even f then f else f + 1)"

definition exponent2 :: "real \<Rightarrow> int" where
  "exponent2 r = \<lfloor>log 2 \<bar>r\<bar>\<rfloor>"

definition round_binary64 :: "real \<Rightarrow> real" where
  "round_binary64 r =
     (if r = 0 then 0
      else let q = max (exponent2 r) (- 1022) - 52
           in of_int (round_half_even (r / 2 powi q)) * 2 powi q)"

definition subtract_binary64 :: "real \<Rightarrow> real \<Rightarrow> real" where
  "subtract_binary64 a b = round_binary64 (a - b)"

definition clipRectToPageBoundsWith ::
  "(real \<Rightarrow> real \<Rightarrow> real) \<Rightarrow> Rect \<Rightarrow> Size \<Rightarrow> Rect \<times> bool" where
  "clipRectToPageBoundsWith subtract r pageSize =
     (let maxX = width pageSize;
          maxY = height pageSize;
          clippedX = clamp (x (origin r)) 0 maxX;
          clippedY = clamp (y (origin r)) 0 maxY;
          maxWidth = subtract maxX clippedX;
          maxHeight = subtract maxY clippedY;
          clippedWidth = min (width (size_rect r)) maxWidth;
          clippedHeight = min (height (size_rect r)) maxHeight;
          clippedRect = \<lparr>origin = \<lparr>x = clippedX, y = clippedY\<rparr>,
                         size_rect = \<lparr>width = max 0 clippedWidth, height = max 0 clippedHeight\<rparr>\<rparr>;
          wasClipped = (clippedX \<noteq> x (origin r) \<or> clippedY \<noteq> y (origin r) \<or>
                        clippedWidth \<noteq> width (size_rect r) \<or>
                        clippedHeight \<noteq> height (size_rect r))
      in (clippedRect, wasClipped))"

section \<open>The fixtures of the test suite\<close>

text \<open>
  The helpers of \<^verbatim>\<open>duplicate-to-all-pages.test.ts\<close> that build the pages and annotations
  of the tests, with the attribute values they set.
\<close>

definition createMockPage :: "int \<Rightarrow> real \<Rightarrow> real \<Rightarrow> Rotation \<Rightarrow> PdfPageObject" where
  "createMockPage i w h r = \<lparr>index = i, size_page = \<lparr>width = w, height = h\<rparr>, rotation = r\<rparr>"

definition createSquareAnnotation ::
  "string \<Rightarrow> int \<Rightarrow> real \<Rightarrow> real \<Rightarrow> real \<Rightarrow> real \<Rightarrow> PdfAnnotationObject" where
  "createSquareAnnotation ident page px py w h =
     \<lparr>id_anno = ident, pageIndex = page, created = None,
      rect = \<lparr>origin = \<lparr>x = px, y = py\<rparr>, size_rect = \<lparr>width = w, height = h\<rparr>\<rparr>,
      shape = Simple SQUARE,
      color = Some ''#FF0000'', strokeColor = Some ''#000000'', strokeWidth = Some 1,
      strokeStyle = Some SOLID, opacity = Some 1, flags = Some [''print''], icon = None\<rparr>"

definition createInkAnnotation ::
  "string \<Rightarrow> int \<Rightarrow> real \<Rightarrow> real \<Rightarrow> real \<Rightarrow> real \<Rightarrow> PdfAnnotationObject" where
  "createInkAnnotation ident page px py w h =
     \<lparr>id_anno = ident, pageIndex = page, created = None,
      rect = \<lparr>origin = \<lparr>x = px, y = py\<rparr>, size_rect = \<lparr>width = w, height = h\<rparr>\<rparr>,
      shape = INK [\<lparr>points = [\<lparr>x = px + 10, y = py + 10\<rparr>,
                               \<lparr>x = px + 20, y = py + 20\<rparr>,
                               \<lparr>x = px + 30, y = py + 30\<rparr>]\<rparr>],
      color = Some ''#0000FF'', strokeColor = None, strokeWidth = Some 2,
      strokeStyle = None, opacity = Some 1, flags = None, icon = None\<rparr>"

definition createLineAnnotation ::
  "string \<Rightarrow> int \<Rightarrow> real \<Rightarrow> real \<Rightarrow> real \<Rightarrow> real \<Rightarrow> PdfAnnotationObject" where
  "createLineAnnotation ident page startX startY endX endY =
     (let minX = min startX endX;
          minY = min startY endY;
          maxX = max startX endX;
          maxY = max startY endY
      in \<lparr>id_anno = ident, pageIndex = page, created = None,
          rect = \<lparr>origin = \<lparr>x = minX, y = minY\<rparr>,
                  size_rect = \<lparr>width = maxX - minX, height = maxY - minY\<rparr>\<rparr>,
          shape = LINE \<lparr>start = \<lparr>x = startX, y = startY\<rparr>, end_pt = \<lparr>x = endX, y = endY\<rparr>\<rparr>,
          color = Some ''#00FF00'', strokeColor = Some ''#000000'', strokeWidth = Some 1,
          strokeStyle = Some SOLID, opacity = Some 1, flags = None, icon = None\<rparr>)"

text \<open>
  Stand-ins for the two sources of non-determinism, for running the engine on the
  fixtures: a generator whose \<open>k\<close>-th identifier is \<open>k + 1\<close> letters long, a clock
  that advances by one millisecond at each reading, and a world in which neither has been
  used.
\<close>

definition testUuid :: "nat \<Rightarrow> string" where
  "testUuid k = replicate (Suc k) CHR ''u''"

definition testClock :: "nat \<Rightarrow> int" where
  "testClock k = 1000 + int k"

definition world0 :: World where
  "world0 = \<lparr>idsDrawn = 0, clockReads = 0, console = []\<rparr>"

section \<open>The vocabulary of the properties\<close>

text \<open>
  The effective size of a page in the words of the specification: width and height
  swapped when the rotation is 90 or 270 degrees, the stored size otherwise.
\<close>

definition effectiveSize :: "PdfPageObject \<Rightarrow> Size" where
  "effectiveSize p =
     (if rotation p = Degree90 \<or> rotation p = Degree270
      then \<lparr>width = height (size_page p), height = width (size_page p)\<rparr>
      else size_page p)"

text \<open>A point inside \<open>[0, width] \<times> [0, height]\<close>, and a rectangle inside it.\<close>

definition positionWithin :: "Position \<Rightarrow> Size \<Rightarrow> bool" where
  "positionWithin p b = (0 \<le> x p \<and> x p \<le> width b \<and> 0 \<le> y p \<and> y p \<le> height b)"

definition rectWithin :: "Rect \<Rightarrow> Size \<Rightarrow> bool" where
  "rectWithin r b =
     (0 \<le> x (origin r) \<and> 0 \<le> y (origin r) \<and>
      0 \<le> width (size_rect r) \<and> 0 \<le> height (size_rect r) \<and>
      x (origin r) + width (size_rect r) \<le> width b \<and>
      y (origin r) + height (size_rect r) \<le> height b)"

fun shapeWithin :: "Shape \<Rightarrow> Size \<Rightarrow> bool" where
  "shapeWithin (INK inkList) b =
     list_all (\<lambda>ink. list_all (\<lambda>p. positionWithin p b) (points ink)) inkList"
| "shapeWithin (POLYGON vertices) b = list_all (\<lambda>p. positionWithin p b) vertices"
| "shapeWithin (POLYLINE vertices) b = list_all (\<lambda>p. positionWithin p b) vertices"
| "shapeWithin (LINE linePoints) b =
     (positionWithin (start linePoints) b \<and> positionWithin (end_pt linePoints) b)"
| "shapeWithin (Simple t) b = True"

definition geometryWithin :: "'a PdfAnnotationObject_scheme \<Rightarrow> Size \<Rightarrow> bool" where
  "geometryWithin a b = (rectWithin (rect a) b \<and> shapeWithin (shape a) b)"

text \<open>
  The value of the field \<^verbatim>\<open>type\<close> of an annotation: the discriminant without the
  coordinate data.
\<close>

datatype PdfAnnotationSubtype =
  InkType | PolygonType | PolylineType | LineType | SimpleType SimpleSubtype

fun type_anno :: "Shape \<Rightarrow> PdfAnnotationSubtype" where
  "type_anno (INK inkList) = InkType"
| "type_anno (POLYGON vertices) = PolygonType"
| "type_anno (POLYLINE vertices) = PolylineType"
| "type_anno (LINE linePoints) = LineType"
| "type_anno (Simple t) = SimpleType t"

text \<open>
  The target pages of a call: every page in input order, without the pages that carry
  the source annotation's page index unless \<^verbatim>\<open>includeSourcePage\<close> is \<^verbatim>\<open>true\<close>.
\<close>

definition eligible :: "bool \<Rightarrow> 'a PdfAnnotationObject_scheme \<Rightarrow> PdfPageObject \<Rightarrow> bool" where
  "eligible incl src p = (incl \<or> index p \<noteq> pageIndex src)"

definition eligiblePages ::
  "DuplicateAnnotationOptions \<Rightarrow> 'a PdfAnnotationObject_scheme \<Rightarrow> PdfPageObject list
     \<Rightarrow> PdfPageObject list" where
  "eligiblePages options src pages =
     filter (eligible (includeSourcePage options = Some True) src) pages"

text \<open>
  The duplicates made for a list of target pages when the generator and the clock have
  been used \<open>i\<close> and \<open>c\<close> times before: what the loop appends to \<^verbatim>\<open>annotations\<close>.
\<close>

fun duplicatesFrom ::
  "(nat \<Rightarrow> string) \<Rightarrow> (nat \<Rightarrow> int) \<Rightarrow> 'a PdfAnnotationObject_scheme \<Rightarrow> PdfPageObject
     \<Rightarrow> nat \<Rightarrow> nat \<Rightarrow> PdfPageObject list \<Rightarrow> 'a PdfAnnotationObject_scheme list" where
  "duplicatesFrom uuid clock src sp i c [] = []"
| "duplicatesFrom uuid clock src sp i c (tp # ts) =
     (fst (transformAnnotationForTargetPage src sp tp))
        \<lparr>id_anno := uuid i, pageIndex := index tp, created := Some (clock c)\<rparr>
     # duplicatesFrom uuid clock src sp (Suc i) (Suc c) ts"

definition clipWarning :: "'a PdfAnnotationObject_scheme \<Rightarrow> PdfPageObject \<Rightarrow> Diagnostic" where
  "clipWarning src tp =
     ClipWarning (id_anno src) (index tp) (width (size_page tp)) (height (size_page tp))"

text \<open>
  Two page lists that differ at most in the size and rotation of the pages that carry
  the index \<open>i\<close>.
\<close>

definition samePagesExcept :: "int \<Rightarrow> PdfPageObject list \<Rightarrow> PdfPageObject list \<Rightarrow> bool" where
  "samePagesExcept i ps qs =
     list_all2 (\<lambda>p q. index p = index q \<and> (index p = i \<or> p = q)) ps qs"

text \<open>Reading a page index back from the decimal digits of an error message.\<close>

definition parse_digits :: "string \<Rightarrow> nat" where
  "parse_digits s = foldl (\<lambda>acc c. 10 * acc + (of_char c - 48)) 0 s"

definition parse_number :: "string \<Rightarrow> int" where
  "parse_number s =
     (case s of
        [] \<Rightarrow> 0
      | c # ds \<Rightarrow> if c = CHR ''-'' then - int (parse_digits ds) else int (parse_digits s))"

text \<open>
  The page index an error message carries: the number printed after the fixed text of
  the message.
\<close>

definition pageOfMessage :: "string \<Rightarrow> int" where
  "pageOfMessage msg =
     parse_number (drop (length ''Source page not found for annotation on page '') msg)"

section \<open>Clamping and clipping\<close>

declare digits.simps [simp del]

lemma getRotatedPageSize_effectiveSize: "getRotatedPageSize p = effectiveSize p"
  by (simp add: getRotatedPageSize_def effectiveSize_def)

lemma Position_eq_iff: "(p = q) = (x p = x q \<and> y p = y q)" for p q :: Position
  by (cases p, cases q) simp

lemma Size_eq_iff: "(s = t) = (width s = width t \<and> height s = height t)" for s t :: Size
  by (cases s, cases t) simp

lemma Rect_eq_iff: "(r = q) = (origin r = origin q \<and> size_rect r = size_rect q)" for r q :: Rect
  by (cases r, cases q) simp

lemma clipPosition_fixed:
  "positionWithin p b \<Longrightarrow> clipPositionToPageBounds p b = (p, False)"
  by (simp add: clipPositionToPageBounds_def positionWithin_def clamp_def Let_def)

lemma clipRect_fixed:
  "rectWithin r b \<Longrightarrow> clipRectToPageBounds r b = (r, False)"
  by (simp add: clipRectToPageBounds_def rectWithin_def clamp_def Let_def)

lemma clipPosition_clamps:
  assumes "0 \<le> width b" and "0 \<le> height b"
  shows "x (fst (clipPositionToPageBounds p b)) =
           (if x p < 0 then 0 else if width b < x p then width b else x p) \<and>
         y (fst (clipPositionToPageBounds p b)) =
           (if y p < 0 then 0 else if height b < y p then height b else y p)"
  using assms by (simp add: clipPositionToPageBounds_def clamp_def Let_def max_def min_def)

lemma clipPosition_flag:
  "snd (clipPositionToPageBounds p b) \<longleftrightarrow> fst (clipPositionToPageBounds p b) \<noteq> p"
  by (auto simp add: clipPositionToPageBounds_def Let_def Position_eq_iff)

lemma clipRect_flag:
  assumes "0 \<le> width (size_rect r)" and "0 \<le> height (size_rect r)"
    and "0 \<le> width b" and "0 \<le> height b"
  shows "snd (clipRectToPageBounds r b) \<longleftrightarrow> fst (clipRectToPageBounds r b) \<noteq> r"
  using assms
  by (auto simp add: clipRectToPageBounds_def clamp_def Let_def Rect_eq_iff Position_eq_iff
        Size_eq_iff max_def min_def)

lemma clipRect_edge_inclusive:
  assumes "0 \<le> x (origin r)" and "x (origin r) \<le> width b"
    and "0 \<le> y (origin r)" and "y (origin r) \<le> height b"
    and "0 \<le> height (size_rect r)"
    and "x (origin r) + width (size_rect r) = width b"
    and "y (origin r) + height (size_rect r) \<le> height b"
  shows "clipRectToPageBounds r b = (r, False)"
  using assms by (auto simp add: rectWithin_def intro!: clipRect_fixed)

lemma geometryWithin_mono:
  assumes "geometryWithin a b" and "width b \<le> width b'" and "height b \<le> height b'"
  shows "geometryWithin a b'"
proof -
  have pos: "positionWithin p b \<Longrightarrow> positionWithin p b'" for p
    using assms(2,3) by (simp add: positionWithin_def)
  have "rectWithin (rect a) b'"
    using assms by (simp add: geometryWithin_def rectWithin_def)
  moreover have "shapeWithin (shape a) b'"
    using assms(1) pos by (cases "shape a") (auto simp add: geometryWithin_def list_all_iff)
  ultimately show ?thesis by (simp add: geometryWithin_def)
qed

lemmas transform_defs =
  transformAnnotationForTargetPage_def transformInkAnnotation_def
  transformPolygonAnnotation_def transformPolylineAnnotation_def transformLineAnnotation_def
  transformRectForTargetPage_def transformPositionForTargetPage_def

lemma transform_fixed:
  assumes "geometryWithin a (getRotatedPageSize tp)"
  shows "transformAnnotationForTargetPage a sp tp = (a, False)"
  using assms
  by (cases "shape a")
     (simp_all add: transform_defs geometryWithin_def clipRect_fixed clipPosition_fixed
        Let_def list_all_iff list_ex_iff map_idI)

lemma transform_sourcePage_unused:
  "transformAnnotationForTargetPage a sp1 tp = transformAnnotationForTargetPage a sp2 tp"
  by (cases "shape a") (simp_all add: transform_defs)

lemma transform_frame:
  "(fst (transformAnnotationForTargetPage a sp tp))\<lparr>rect := rect a, shape := shape a\<rparr> = a \<and>
   type_anno (shape (fst (transformAnnotationForTargetPage a sp tp))) = type_anno (shape a)"
  by (cases "shape a") (simp_all add: transform_defs Let_def)

section \<open>The loop\<close>

lemma createDuplicateAnnotation_eq:
  "createDuplicateAnnotation uuid clock src sp tp w =
     ((fst (transformAnnotationForTargetPage src sp tp))
         \<lparr>id_anno := uuid (idsDrawn w), pageIndex := index tp,
          created := Some (clock (clockReads w))\<rparr>,
      snd (transformAnnotationForTargetPage src sp tp),
      w\<lparr>idsDrawn := Suc (idsDrawn w), clockReads := Suc (clockReads w)\<rparr>)"
  by (simp add: createDuplicateAnnotation_def split: prod.splits)

lemma duplicate_rect_is_clipped_rect:
  "rect (fst (createDuplicateAnnotation uuid clock src sp tp w)) =
     fst (clipRectToPageBounds (rect src) (getRotatedPageSize tp))"
  by (cases "shape src") (simp_all add: createDuplicateAnnotation_eq transform_defs Let_def)

lemma duplicateLoop_skip:
  "\<not> eligible incl src tp \<Longrightarrow>
   duplicateLoop uuid clock src sp incl (tp # rest) (annos, clipped, w) =
   duplicateLoop uuid clock src sp incl rest (annos, clipped, w)"
  by (simp add: eligible_def)

lemma duplicateLoop_step:
  "eligible incl src tp \<Longrightarrow>
   duplicateLoop uuid clock src sp incl (tp # rest) (annos, clipped, w) =
   duplicateLoop uuid clock src sp incl rest
     (annos @ [(fst (transformAnnotationForTargetPage src sp tp))
                 \<lparr>id_anno := uuid (idsDrawn w), pageIndex := index tp,
                  created := Some (clock (clockReads w))\<rparr>],
      clipped @ (if snd (transformAnnotationForTargetPage src sp tp) then [index tp] else []),
      w\<lparr>idsDrawn := Suc (idsDrawn w), clockReads := Suc (clockReads w),
        console := console w @
          (if snd (transformAnnotationForTargetPage src sp tp) then [clipWarning src tp] else [])\<rparr>)"
  by (auto simp add: eligible_def createDuplicateAnnotation_eq clipWarning_def)

lemma duplicateLoop_eq:
  "duplicateLoop uuid clock src sp incl pages (annos, clipped, w) =
     (annos @ duplicatesFrom uuid clock src sp (idsDrawn w) (clockReads w)
                (filter (eligible incl src) pages),
      clipped @ map index (filter (\<lambda>p. snd (transformAnnotationForTargetPage src sp p))
                             (filter (eligible incl src) pages)),
      w\<lparr>idsDrawn := idsDrawn w + length (filter (eligible incl src) pages),
        clockReads := clockReads w + length (filter (eligible incl src) pages),
        console := console w @
          map (clipWarning src) (filter (\<lambda>p. snd (transformAnnotationForTargetPage src sp p))
                                   (filter (eligible incl src) pages))\<rparr>)"
proof (induction pages arbitrary: annos clipped w)
  case Nil
  show ?case by simp
next
  case (Cons tp rest)
  show ?case
  proof (cases "eligible incl src tp")
    case False
    then show ?thesis by (simp add: duplicateLoop_skip Cons.IH del: duplicateLoop.simps)
  next
    case True
    then show ?thesis by (simp add: duplicateLoop_step Cons.IH del: duplicateLoop.simps)
  qed
qed

lemma length_duplicatesFrom [simp]:
  "length (duplicatesFrom uuid clock src sp i c ts) = length ts"
  by (induction ts arbitrary: i c) auto

lemma pageIndex_duplicatesFrom:
  "map pageIndex (duplicatesFrom uuid clock src sp i c ts) = map index ts"
  by (induction ts arbitrary: i c) auto

lemma id_duplicatesFrom:
  "map id_anno (duplicatesFrom uuid clock src sp i c ts) = map uuid [i ..< i + length ts]"
  by (induction ts arbitrary: i c) (auto simp: upt_rec)

lemma duplicatesFrom_frame:
  "a \<in> set (duplicatesFrom uuid clock src sp i c ts) \<Longrightarrow>
   a\<lparr>id_anno := id_anno src, pageIndex := pageIndex src, created := created src,
     rect := rect src, shape := shape src\<rparr> = src \<and>
   type_anno (shape a) = type_anno (shape src)"
proof (induction ts arbitrary: i c)
  case Nil
  then show ?case by simp
next
  case (Cons tp ts)
  let ?t = "fst (transformAnnotationForTargetPage src sp tp)"
  have "?t\<lparr>id_anno := id_anno src, pageIndex := pageIndex src, created := created src,
      rect := rect src, shape := shape src\<rparr> =
    (?t\<lparr>rect := rect src, shape := shape src\<rparr>)
      \<lparr>id_anno := id_anno src, pageIndex := pageIndex src, created := created src\<rparr>"
    by simp
  also have "\<dots> = src"
    by (simp add: transform_frame)
  finally have "?t\<lparr>id_anno := id_anno src, pageIndex := pageIndex src, created := created src,
      rect := rect src, shape := shape src\<rparr> = src" .
  with Cons show ?case
    by (auto simp add: transform_frame)
qed

lemma duplicatesFrom_sourcePage_unused:
  "duplicatesFrom uuid clock src sp1 i c ts = duplicatesFrom uuid clock src sp2 i c ts"
  by (induction ts arbitrary: i c) (auto simp add: transform_sourcePage_unused [of src sp1 _ sp2])

section \<open>The whole call\<close>

lemma find_source_page:
  "(\<exists>p\<in>set pages. index p = i) \<Longrightarrow> \<exists>sp. find (\<lambda>p. index p = i) pages = Some sp \<and> sp \<in> set pages \<and> index sp = i"
  by (induction pages) auto

lemma incl_of_options:
  "(case includeSourcePage options of None \<Rightarrow> False | Some b \<Rightarrow> b) =
   (includeSourcePage options = Some True)"
  by (cases "includeSourcePage options") auto

lemma generate_found:
  assumes "find (\<lambda>p. index p = pageIndex src) pages = Some sp"
  shows "generateDuplicateAnnotations uuid clock src pages options w =
     (Inr \<lparr>annotations = duplicatesFrom uuid clock src sp (idsDrawn w) (clockReads w)
                            (eligiblePages options src pages),
           clippedPages = map index (filter (\<lambda>p. snd (transformAnnotationForTargetPage src sp p))
                                       (eligiblePages options src pages))\<rparr>,
      w\<lparr>idsDrawn := idsDrawn w + length (eligiblePages options src pages),
        clockReads := clockReads w + length (eligiblePages options src pages),
        console := console w @
          map (clipWarning src) (filter (\<lambda>p. snd (transformAnnotationForTargetPage src sp p))
                                   (eligiblePages options src pages))\<rparr>)"
  using assms
  by (simp add: generateDuplicateAnnotations_def incl_of_options duplicateLoop_eq
        eligiblePages_def Let_def del: duplicateLoop.simps)

lemma generate_missing:
  assumes "find (\<lambda>p. index p = pageIndex src) pages = None"
  shows "generateDuplicateAnnotations uuid clock src pages options w =
     (Inl (Error (''Source page not found for annotation on page '' @
                  number_to_string (pageIndex src))), w)"
  using assms by (simp add: generateDuplicateAnnotations_def)

lemma generate_returns:
  "\<exists>p\<in>set pages. index p = pageIndex src \<Longrightarrow>
   \<exists>res w'. generateDuplicateAnnotations uuid clock src pages options w = (Inr res, w')"
  using find_source_page [of pages "pageIndex src"] generate_found [of src pages]
  by blast

lemma generate_Inr_found:
  assumes "generateDuplicateAnnotations uuid clock src pages options w = (Inr res, w')"
  obtains sp where "find (\<lambda>p. index p = pageIndex src) pages = Some sp"
  using assms generate_missing [of src pages uuid clock options w]
  by (cases "find (\<lambda>p. index p = pageIndex src) pages") auto

lemma generate_length:
  assumes "generateDuplicateAnnotations uuid clock src pages options w = (Inr res, w')"
  shows "length (annotations res) = length (eligiblePages options src pages)"
proof -
  from assms obtain sp where sp: "find (\<lambda>p. index p = pageIndex src) pages = Some sp"
    by (rule generate_Inr_found)
  from assms show ?thesis unfolding generate_found [OF sp] by auto
qed

lemma eligible_all_when_included:
  "includeSourcePage options = Some True \<Longrightarrow> eligiblePages options src pages = pages"
  by (simp add: eligiblePages_def eligible_def)

lemma index_eligiblePages:
  "includeSourcePage options \<noteq> Some True \<Longrightarrow>
   map index (eligiblePages options src pages) = removeAll (pageIndex src) (map index pages)"
  by (induction pages) (auto simp: eligiblePages_def eligible_def)

lemma set_eligiblePages: "set (eligiblePages options src pages) \<subseteq> set pages"
  by (simp add: eligiblePages_def)

lemma page_by_index:
  "distinct (map index pages) \<Longrightarrow> p \<in> set pages \<Longrightarrow> q \<in> set pages \<Longrightarrow>
   index p = index q \<Longrightarrow> p = q"
  by (meson distinct_map inj_onD)

lemma one_occurrence:
  "distinct xs \<Longrightarrow> i \<in> set xs \<Longrightarrow> length (filter (\<lambda>j. j = i) xs) = 1"
  by (induction xs) (auto simp add: filter_empty_conv)

section \<open>Page lists that differ at the source page\<close>

lemma samePagesExcept_filter:
  "samePagesExcept i ps qs \<Longrightarrow>
   samePagesExcept i (filter (eligible incl src) ps) (filter (eligible incl src) qs)"
  unfolding samePagesExcept_def
  by (induction rule: list_all2_induct) (auto simp add: eligible_def)

lemma samePagesExcept_skipped:
  "samePagesExcept (pageIndex src) ps qs \<Longrightarrow>
   filter (eligible False src) ps = filter (eligible False src) qs"
  unfolding samePagesExcept_def
  by (induction rule: list_all2_induct) (auto simp add: eligible_def)

lemma samePagesExcept_find:
  "samePagesExcept i ps qs \<Longrightarrow>
   (find (\<lambda>p. index p = i) ps = None) = (find (\<lambda>p. index p = i) qs = None)"
  unfolding samePagesExcept_def
  by (induction rule: list_all2_induct) auto

lemma duplicatesFrom_samePagesExcept:
  "samePagesExcept (pageIndex src) ts ts' \<Longrightarrow>
   list_all2 (\<lambda>a a'. pageIndex a = pageIndex a' \<and> (pageIndex a = pageIndex src \<or> a = a'))
     (duplicatesFrom uuid clock src sp i c ts) (duplicatesFrom uuid clock src sp' i c ts')"
  unfolding samePagesExcept_def
proof (induction arbitrary: i c rule: list_all2_induct)
  case Nil
  show ?case by simp
next
  case (Cons p ps q qs)
  then show ?case
    by (auto simp add: transform_sourcePage_unused [of src sp _ sp'])
qed

lemma clipped_samePagesExcept:
  "samePagesExcept (pageIndex src) ts ts' \<Longrightarrow>
   filter (\<lambda>j. j \<noteq> pageIndex src)
     (map index (filter (\<lambda>p. snd (transformAnnotationForTargetPage src sp p)) ts)) =
   filter (\<lambda>j. j \<noteq> pageIndex src)
     (map index (filter (\<lambda>p. snd (transformAnnotationForTargetPage src sp' p)) ts'))"
  unfolding samePagesExcept_def
proof (induction rule: list_all2_induct)
  case Nil
  show ?case by simp
next
  case (Cons p ps q qs)
  then show ?case
    by (auto simp add: transform_sourcePage_unused [of src sp _ sp'])
qed

section \<open>Decimal page numbers\<close>

lemma parse_digits_snoc:
  "parse_digits (s @ [c]) = 10 * parse_digits s + (of_char c - 48)"
  by (simp add: parse_digits_def)

lemma parse_digits_digits: "parse_digits (digits n) = n"
proof (induction n rule: digits.induct)
  case (1 n)
  show ?case
  proof (cases "n < 10")
    case True
    then show ?thesis
      by (subst digits.simps) (simp add: parse_digits_def)
  next
    case False
    have m: "(48 + n mod 10) mod 256 = 48 + n mod 10"
      by (rule mod_less) (simp add: less_le_trans [OF add_strict_left_mono [OF pos_mod_bound]])
    from False 1 have "parse_digits (digits (n div 10)) = n div 10" by simp
    with False m show ?thesis
      by (subst digits.simps) (simp add: parse_digits_snoc)
  qed
qed

lemma digits_head: "\<exists>c cs. digits n = c # cs \<and> c \<noteq> CHR ''-''"
proof (induction n rule: digits.induct)
  case (1 n)
  show ?case
  proof (cases "n < 10")
    case True
    have "char_of (48 + n) \<noteq> CHR ''-''"
    proof
      assume "char_of (48 + n) = CHR ''-''"
      then have "of_char (char_of (48 + n)) = (of_char CHR ''-'' :: nat)" by simp
      with True show False by simp
    qed
    with True show ?thesis by (subst digits.simps) simp
  next
    case False
    with 1 obtain c cs where "digits (n div 10) = c # cs" "c \<noteq> CHR ''-''" by blast
    with False show ?thesis by (subst digits.simps) simp
  qed
qed

lemma parse_number_to_string: "parse_number (number_to_string i) = i"
proof (cases "i < 0")
  case True
  then show ?thesis
    by (simp add: parse_number_def number_to_string_def parse_digits_digits)
next
  case False
  obtain c cs where d: "digits (nat i) = c # cs" "c \<noteq> CHR ''-''"
    using digits_head by blast
  have "parse_digits (c # cs) = nat i"
    using parse_digits_digits [of "nat i"] d by simp
  with False d show ?thesis
    by (simp add: parse_number_def number_to_string_def)
qed

lemma pageOfMessage_number:
  "pageOfMessage (''Source page not found for annotation on page '' @ number_to_string i) = i"
  unfolding pageOfMessage_def
  by (simp only: drop_append drop_all order_refl diff_self_eq_0 drop_0 append_Nil
        parse_number_to_string)

lemma number_to_string_0: "number_to_string 0 = ''0''"
  by code_simp

section \<open>Running the engine on the fixtures\<close>

lemmas fixture_defs =
  createMockPage_def createSquareAnnotation_def createInkAnnotation_def
  createLineAnnotation_def no_options_def world0_def testUuid_def testClock_def

lemma fixture_fields [simp]:
  "index (createMockPage i w h r) = i"
  "size_page (createMockPage i w h r) = \<lparr>width = w, height = h\<rparr>"
  "rotation (createMockPage i w h r) = r"
  "pageIndex (createSquareAnnotation ident page px py w h) = page"
  "pageIndex (createInkAnnotation ident page px py w h) = page"
  "pageIndex (createLineAnnotation ident page px py w h) = page"
  "id_anno (createSquareAnnotation ident page px py w h) = ident"
  "id_anno (createInkAnnotation ident page px py w h) = ident"
  "id_anno (createLineAnnotation ident page px py w h) = ident"
  "includeSourcePage no_options = None"
  by (simp_all add: fixture_defs Let_def)

lemmas engine_defs =
  generateDuplicateAnnotations_def createDuplicateAnnotation_def transform_defs
  getRotatedPageSize_def clipRectToPageBounds_def clipPositionToPageBounds_def clamp_def

lemma inj_testUuid: "inj testUuid"
  by (simp add: inj_on_def testUuid_def)

section \<open>Rounding to a double\<close>

lemma clipRectToPageBoundsWith_exact:
  "clipRectToPageBoundsWith (\<lambda>a b. a - b) r pageSize = clipRectToPageBounds r pageSize"
  by (simp add: clipRectToPageBoundsWith_def clipRectToPageBounds_def)

lemma clipRectWith_keeps_origin_and_sign:
  assumes "0 \<le> width b" and "0 \<le> height b"
  shows "0 \<le> x (origin (fst (clipRectToPageBoundsWith subtract r b))) \<and>
         x (origin (fst (clipRectToPageBoundsWith subtract r b))) \<le> width b \<and>
         0 \<le> y (origin (fst (clipRectToPageBoundsWith subtract r b))) \<and>
         y (origin (fst (clipRectToPageBoundsWith subtract r b))) \<le> height b \<and>
         0 \<le> width (size_rect (fst (clipRectToPageBoundsWith subtract r b))) \<and>
         0 \<le> height (size_rect (fst (clipRectToPageBoundsWith subtract r b)))"
  using assms by (simp add: clipRectToPageBoundsWith_def clamp_def Let_def)

lemma exponent2_eq:
  assumes "2 powi e \<le> \<bar>r\<bar>" and "\<bar>r\<bar> < 2 powi (e + 1)"
  shows "exponent2 r = e"
proof -
  have p: "(2::real) powr real_of_int k = 2 powi k" for k
    by (rule powr_real_of_int') simp_all
  have "(0::real) < 2 powi e" by simp
  with assms(1) have pos: "0 < \<bar>r\<bar>" by linarith
  have "real_of_int e + 1 = real_of_int (e + 1)" by simp
  then have "2 powr real_of_int e \<le> \<bar>r\<bar>" "\<bar>r\<bar> < 2 powr (real_of_int e + 1)"
    using assms by (simp_all only: p)
  with pos have "\<lfloor>log 2 \<bar>r\<bar>\<rfloor> = e"
    by (subst floor_log_eq_powr_iff) simp_all
  then show ?thesis by (simp add: exponent2_def)
qed

lemma round_binary64_eval:
  assumes "2 powi e \<le> \<bar>r\<bar>" and "\<bar>r\<bar> < 2 powi (e + 1)" and "- 1022 \<le> e"
  shows "round_binary64 r = of_int (round_half_even (r / 2 powi (e - 52))) * 2 powi (e - 52)"
proof -
  have "(0::real) < 2 powi e" by simp
  with assms(1) have "0 < \<bar>r\<bar>" by linarith
  then have "r \<noteq> 0" by simp
  then show ?thesis
    using exponent2_eq [OF assms(1,2)] assms(3) by (simp add: round_binary64_def Let_def)
qed

lemma literal_595_276: "round_binary64 595.276 = 5236103069887889 / 2 ^ 43"
proof -
  have "round_binary64 595.276 =
     of_int (round_half_even (595.276 / 2 powi (9 - 52))) * 2 powi (9 - 52)"
    by (rule round_binary64_eval) (simp_all add: power_int_def)
  also have "(595.276 / 2 powi (9 - 52) :: real) = 5236103069887889 + 51 / 125"
    by (simp add: power_int_def field_simps)
  also have "round_half_even (5236103069887889 + 51 / 125) = 5236103069887889"
    by (simp add: round_half_even_def Let_def)
  finally show ?thesis by (simp add: power_int_def field_simps)
qed

lemma literal_32_19: "round_binary64 32.19 = 566292468769751 / 2 ^ 44"
proof -
  have "round_binary64 32.19 =
     of_int (round_half_even (32.19 / 2 powi (5 - 52))) * 2 powi (5 - 52)"
    by (rule round_binary64_eval) (simp_all add: power_int_def)
  also have "(32.19 / 2 powi (5 - 52) :: real) = 4530339750158008 + 8 / 25"
    by (simp add: power_int_def field_simps)
  also have "round_half_even (4530339750158008 + 8 / 25) = 4530339750158008"
    by (simp add: round_half_even_def Let_def)
  finally show ?thesis by (simp add: power_int_def field_simps)
qed

lemma literal_563_086: "round_binary64 563.086 = 2476478417751507 / 2 ^ 42"
proof -
  have "round_binary64 563.086 =
     of_int (round_half_even (563.086 / 2 powi (9 - 52))) * 2 powi (9 - 52)"
    by (rule round_binary64_eval) (simp_all add: power_int_def)
  also have "(563.086 / 2 powi (9 - 52) :: real) = 4952956835503013 + 111 / 125"
    by (simp add: power_int_def field_simps)
  also have "round_half_even (4952956835503013 + 111 / 125) = 4952956835503014"
    by (simp add: round_half_even_def Let_def)
  finally show ?thesis by (simp add: power_int_def field_simps)
qed

lemma difference_is_rounded_up:
  "subtract_binary64 (5236103069887889 / 2 ^ 43) (566292468769751 / 2 ^ 44) =
   2476478417751507 / 2 ^ 42"
proof -
  have d: "(5236103069887889 / 2 ^ 43 - 566292468769751 / 2 ^ 44 :: real) = 9905913671006027 / 2 ^ 44"
    by simp
  have "round_binary64 (9905913671006027 / 2 ^ 44) =
     of_int (round_half_even ((9905913671006027 / 2 ^ 44) / 2 powi (9 - 52))) * 2 powi (9 - 52)"
    by (rule round_binary64_eval) (simp_all add: power_int_def)
  also have "((9905913671006027 / 2 ^ 44) / 2 powi (9 - 52) :: real) = 4952956835503013 + 1 / 2"
    by (simp add: power_int_def field_simps)
  also have "round_half_even (4952956835503013 + 1 / 2) = 4952956835503014"
    by (simp add: round_half_even_def Let_def)
  finally show ?thesis
    unfolding subtract_binary64_def d by (simp add: power_int_def field_simps)
qed

lemma difference_742: "subtract_binary64 842 100 = 742"
proof -
  have "round_binary64 742 =
     of_int (round_half_even (742 / 2 powi (9 - 52))) * 2 powi (9 - 52)"
    by (rule round_binary64_eval) (simp_all add: power_int_def)
  also have "(742 / 2 powi (9 - 52) :: real) = 6526701022478336"
    by (simp add: power_int_def field_simps)
  also have "round_half_even 6526701022478336 = 6526701022478336"
    by (simp add: round_half_even_def Let_def)
  finally show ?thesis
    unfolding subtract_binary64_def by (simp add: power_int_def field_simps)
qed

lemma sum_is_rounded_up:
  "round_binary64 (566292468769751 / 2 ^ 44 + 2476478417751507 / 2 ^ 42) =
   5236103069887890 / 2 ^ 43"
proof -
  have d: "(566292468769751 / 2 ^ 44 + 2476478417751507 / 2 ^ 42 :: real) =
      10472206139775779 / 2 ^ 44"
    by simp
  have "round_binary64 (10472206139775779 / 2 ^ 44) =
     of_int (round_half_even ((10472206139775779 / 2 ^ 44) / 2 powi (9 - 52))) * 2 powi (9 - 52)"
    by (rule round_binary64_eval) (simp_all add: power_int_def)
  also have "((10472206139775779 / 2 ^ 44) / 2 powi (9 - 52) :: real) = 5236103069887889 + 1 / 2"
    by (simp add: power_int_def field_simps)
  also have "round_half_even (5236103069887889 + 1 / 2) = 5236103069887890"
    by (simp add: round_half_even_def Let_def)
  finally show ?thesis
    unfolding d by (simp add: power_int_def field_simps)
qed

section \<open>The properties of the engine\<close>

subsection \<open>Produced geometry stays on the target page\<close>

text \<open>
  Claim C1. When every page has a width and a height of at least 0 and some page carries
  the source annotation's page index, the call returns a result and every produced
  annotation lies within the effective size of its target page; in particular the
  rectangle's \<open>origin.x + size.width\<close> is at most the effective width. The engine does
  not keep the last bound. The rectangle of a duplicate is what \<^verbatim>\<open>clipRectToPageBounds\<close>
  returns for the source rectangle and the target page's effective size
  (\<open>duplicate_rect_is_clipped_rect\<close>), and the width it leaves is the rounded
  difference \<^verbatim>\<open>maxX - clippedX\<close>. For the rectangle at
  \<open>x = 32.19\<close> of width 700 and a page of width 595.276, that difference is a tie and is
  rounded up, to the double of 563.086: the rectangle ends \<open>1 / 2 ^ 44\<close> beyond the page
  width, and the sum of doubles \<^verbatim>\<open>origin.x + size.width\<close>, 595.2760000000001, is greater
  than the page width too. (The origin and the sign of the size are as the claim says,
  whatever the subtraction does: \<open>clipRectWith_keeps_origin_and_sign\<close>.)
\<close>

theorem rounded_width_exceeds_page_width:
  "fst (clipRectToPageBoundsWith subtract_binary64
          \<lparr>origin = \<lparr>x = round_binary64 32.19, y = 100\<rparr>,
             size_rect = \<lparr>width = 700, height = 50\<rparr>\<rparr>
          \<lparr>width = round_binary64 595.276, height = 842\<rparr>) =
     \<lparr>origin = \<lparr>x = round_binary64 32.19, y = 100\<rparr>,
        size_rect = \<lparr>width = round_binary64 563.086, height = 50\<rparr>\<rparr> \<and>
   round_binary64 595.276 < round_binary64 32.19 + round_binary64 563.086 \<and>
   round_binary64 32.19 + round_binary64 563.086 - round_binary64 595.276 = 1 / 2 ^ 44 \<and>
   round_binary64 595.276 < round_binary64 (round_binary64 32.19 + round_binary64 563.086)"
proof -
  have d: "subtract_binary64 (5236103069887889 / 8796093022208)
      (566292468769751 / 17592186044416) = 2476478417751507 / 4398046511104"
    using difference_is_rounded_up by simp
  have s: "round_binary64 (10472206139775779 / 17592186044416) =
      5236103069887890 / 8796093022208"
    using sum_is_rounded_up by simp
  show ?thesis
    unfolding literal_595_276 literal_32_19 literal_563_086
    by (simp add: clipRectToPageBoundsWith_def clamp_def Let_def d s difference_742)
qed

theorem rounded_width_exceeds_page_width_witness:
  "\<not> rectWithin
       (fst (clipRectToPageBoundsWith subtract_binary64
               \<lparr>origin = \<lparr>x = round_binary64 32.19, y = 100\<rparr>,
                  size_rect = \<lparr>width = 700, height = 50\<rparr>\<rparr>
               \<lparr>width = round_binary64 595.276, height = 842\<rparr>))
       \<lparr>width = round_binary64 595.276, height = 842\<rparr>"
  using rounded_width_exceeds_page_width by (simp add: rectWithin_def)

subsection \<open>Number and order of the duplicates\<close>

text \<open>
  Claim C2. When some page carries the source annotation's page index and the page
  indexes are unique, the call returns \<open>length pages - 1\<close> annotations when
  \<^verbatim>\<open>includeSourcePage\<close> is false or absent and \<open>length pages\<close> when it is true; the
  page indexes of the annotations are the indexes of the pages in input order, without
  the source page's when it is skipped; a single-page document without the option
  yields no annotation and no clipped page.
\<close>

theorem annotation_count_and_order:
  assumes "\<exists>p\<in>set pages. index p = pageIndex src"
    and "distinct (map index pages)"
  shows "\<exists>res w'. generateDuplicateAnnotations uuid clock src pages options w = (Inr res, w') \<and>
           length (annotations res) =
             (if includeSourcePage options = Some True then length pages else length pages - 1) \<and>
           map pageIndex (annotations res) =
             (if includeSourcePage options = Some True then map index pages
              else remove1 (pageIndex src) (map index pages)) \<and>
           map pageIndex (annotations res) = map index (eligiblePages options src pages) \<and>
           (length pages = 1 \<and> includeSourcePage options = None \<longrightarrow>
              annotations res = [] \<and> clippedPages res = [])"
proof -
  from assms(1) obtain sp where sp: "find (\<lambda>p. index p = pageIndex src) pages = Some sp"
    using find_source_page by blast
  let ?ts = "eligiblePages options src pages"
  have idx: "map index ?ts =
      (if includeSourcePage options = Some True then map index pages
       else remove1 (pageIndex src) (map index pages))"
    using assms(2)
    by (simp add: eligible_all_when_included index_eligiblePages distinct_remove1_removeAll)
  have mem: "pageIndex src \<in> set (map index pages)"
    using assms(1) by (metis image_eqI set_map)
  have len: "length ?ts =
      (if includeSourcePage options = Some True then length pages else length pages - 1)"
    using arg_cong [OF idx, of length] mem by (simp add: length_remove1 del: set_map)
  have single: "length pages = 1 \<and> includeSourcePage options = None \<longrightarrow> ?ts = []"
    using len by auto
  show ?thesis
    unfolding generate_found [OF sp]
    using idx len single by (auto simp add: pageIndex_duplicatesFrom)
qed

theorem annotation_count_and_order_witness:
  "(\<exists>res w'. generateDuplicateAnnotations testUuid testClock
        (createSquareAnnotation ''anno-1'' 0 100 100 50 50)
        [createMockPage 0 612 792 Degree0, createMockPage 1 612 792 Degree0,
         createMockPage 2 612 792 Degree0, createMockPage 3 612 792 Degree0]
        no_options world0 = (Inr res, w') \<and>
      length (annotations res) = 3 \<and> map pageIndex (annotations res) = [1, 2, 3]) \<and>
   (\<exists>res w'. generateDuplicateAnnotations testUuid testClock
        (createSquareAnnotation ''anno-1'' 0 100 100 50 50)
        [createMockPage 0 612 792 Degree0, createMockPage 1 612 792 Degree0,
         createMockPage 2 612 792 Degree0]
        \<lparr>includeSourcePage = Some True\<rparr> world0 = (Inr res, w') \<and>
      length (annotations res) = 3 \<and> map pageIndex (annotations res) = [0, 1, 2]) \<and>
   (\<exists>res w'. generateDuplicateAnnotations testUuid testClock
        (createSquareAnnotation ''anno'' 0 100 100 50 50)
        [createMockPage 0 612 792 Degree0] no_options world0 = (Inr res, w') \<and>
      annotations res = [] \<and> clippedPages res = [])"
proof (intro conjI)
  let ?src = "createSquareAnnotation ''anno-1'' 0 100 100 50 50"
  let ?pages = "[createMockPage 0 612 792 Degree0, createMockPage 1 612 792 Degree0,
         createMockPage 2 612 792 Degree0, createMockPage 3 612 792 Degree0]"
  have h1: "\<exists>p\<in>set ?pages. index p = pageIndex ?src" by simp
  have h2: "distinct (map index ?pages)" by simp
  from annotation_count_and_order [OF h1 h2, of testUuid testClock no_options world0]
  obtain res w' where
    "generateDuplicateAnnotations testUuid testClock ?src ?pages no_options world0 = (Inr res, w')"
    "length (annotations res) = 3" "map pageIndex (annotations res) = [1, 2, 3]"
    by auto
  then show "\<exists>res w'. generateDuplicateAnnotations testUuid testClock ?src ?pages
        no_options world0 = (Inr res, w') \<and>
      length (annotations res) = 3 \<and> map pageIndex (annotations res) = [1, 2, 3]"
    by (intro exI conjI)
next
  let ?src = "createSquareAnnotation ''anno-1'' 0 100 100 50 50"
  let ?pages = "[createMockPage 0 612 792 Degree0, createMockPage 1 612 792 Degree0,
         createMockPage 2 612 792 Degree0]"
  let ?opts = "\<lparr>includeSourcePage = Some True\<rparr>"
  have h1: "\<exists>p\<in>set ?pages. index p = pageIndex ?src" by simp
  have h2: "distinct (map index ?pages)" by simp
  from annotation_count_and_order [OF h1 h2, of testUuid testClock ?opts world0]
  obtain res w' where
    "generateDuplicateAnnotations testUuid testClock ?src ?pages ?opts world0 = (Inr res, w')"
    "length (annotations res) = 3" "map pageIndex (annotations res) = [0, 1, 2]"
    by auto
  then show "\<exists>res w'. generateDuplicateAnnotations testUuid testClock ?src ?pages
        ?opts world0 = (Inr res, w') \<and>
      length (annotations res) = 3 \<and> map pageIndex (annotations res) = [0, 1, 2]"
    by (intro exI conjI)
next
  let ?src = "createSquareAnnotation ''anno'' 0 100 100 50 50"
  let ?pages = "[createMockPage 0 612 792 Degree0]"
  have h1: "\<exists>p\<in>set ?pages. index p = pageIndex ?src" by simp
  have h2: "distinct (map index ?pages)" by simp
  from annotation_count_and_order [OF h1 h2, of testUuid testClock no_options world0]
  obtain res w' where
    "generateDuplicateAnnotations testUuid testClock ?src ?pages no_options world0 = (Inr res, w')"
    "annotations res = []" "clippedPages res = []"
    by auto
  then show "\<exists>res w'. generateDuplicateAnnotations testUuid testClock ?src ?pages
        no_options world0 = (Inr res, w') \<and> annotations res = [] \<and> clippedPages res = []"
    by (intro exI conjI)
qed

subsection \<open>Truncation of a rectangle\<close>



subsection \<open>The missing source page\<close>

text \<open>
  Claim C4. The call fails if and only if no page carries the source annotation's page
  index. The failure is the one error of the engine; nothing has been drawn, read or
  written when it is raised (the world is the one the call started in), and the page
  index can be read back from its message. When a page carries the index, the call
  returns a result.
\<close>

theorem fails_iff_source_page_missing:
  "((\<exists>e w'. generateDuplicateAnnotations uuid clock src pages options w = (Inl e, w')) \<longleftrightarrow>
      (\<forall>p\<in>set pages. index p \<noteq> pageIndex src)) \<and>
   ((\<forall>p\<in>set pages. index p \<noteq> pageIndex src) \<longrightarrow>
      generateDuplicateAnnotations uuid clock src pages options w =
        (Inl (Error (''Source page not found for annotation on page '' @
                     number_to_string (pageIndex src))), w) \<and>
      pageOfMessage (''Source page not found for annotation on page '' @
                     number_to_string (pageIndex src)) = pageIndex src) \<and>
   ((\<exists>p\<in>set pages. index p = pageIndex src) \<longrightarrow>
      (\<exists>res w'. generateDuplicateAnnotations uuid clock src pages options w = (Inr res, w')))"
proof (cases "\<exists>p\<in>set pages. index p = pageIndex src")
  case True
  then obtain sp where "find (\<lambda>p. index p = pageIndex src) pages = Some sp"
    using find_source_page by blast
  from generate_found [OF this, of uuid clock options w] True show ?thesis by auto
next
  case False
  then have "find (\<lambda>p. index p = pageIndex src) pages = None"
    by (simp add: find_None_iff)
  from generate_missing [OF this, of uuid clock options w] False show ?thesis
    by (simp only: pageOfMessage_number) simp
qed

theorem fails_iff_source_page_missing_witness:
  "generateDuplicateAnnotations testUuid testClock
      (createSquareAnnotation ''anno'' 0 100 100 50 50)
      [createMockPage 1 612 792 Degree0, createMockPage 2 612 792 Degree0] no_options world0 =
     (Inl (Error ''Source page not found for annotation on page 0''), world0) \<and>
   (\<exists>res w'. generateDuplicateAnnotations testUuid testClock
      (createSquareAnnotation ''anno'' 0 100 100 50 50)
      [createMockPage 0 612 792 Degree0, createMockPage 1 612 792 Degree0] no_options world0 =
     (Inr res, w'))"
proof
  let ?src = "createSquareAnnotation ''anno'' 0 100 100 50 50"
  let ?pages = "[createMockPage 1 612 792 Degree0, createMockPage 2 612 792 Degree0]"
  have h: "\<forall>p\<in>set ?pages. index p \<noteq> pageIndex ?src" by simp
  have n: "number_to_string (pageIndex ?src) = ''0''"
    by (simp add: number_to_string_0)
  from fails_iff_source_page_missing [of testUuid testClock ?src ?pages no_options world0] h
  have "generateDuplicateAnnotations testUuid testClock ?src ?pages no_options world0 =
     (Inl (Error (''Source page not found for annotation on page '' @
                  number_to_string (pageIndex ?src))), world0)"
    by blast
  then show "generateDuplicateAnnotations testUuid testClock ?src ?pages no_options world0 =
     (Inl (Error ''Source page not found for annotation on page 0''), world0)"
    by (simp only: n) simp
next
  let ?src = "createSquareAnnotation ''anno'' 0 100 100 50 50"
  let ?pages = "[createMockPage 0 612 792 Degree0, createMockPage 1 612 792 Degree0]"
  have h: "\<exists>p\<in>set ?pages. index p = pageIndex ?src" by simp
  from fails_iff_source_page_missing [of testUuid testClock ?src ?pages no_options world0] h
  show "\<exists>res w'. generateDuplicateAnnotations testUuid testClock ?src ?pages no_options world0 =
     (Inr res, w')"
    by blast
qed

subsection \<open>The flag of the two clippers\<close>

text \<open>
  Claim C5. \<^verbatim>\<open>clipRectToPageBounds\<close> is to report \<^verbatim>\<open>wasClipped\<close> exactly when the origin
  or a dimension of the rectangle changed. It takes the flag from the width and height
  before it floors them at 0 with \<^verbatim>\<open>Math.max(0, ...)\<close>, so a rectangle of negative width
  comes back with the width 0 and is not flagged: the square at \<open>(10, 10)\<close> of size
  \<open>- 5 \<times> 20\<close> on a page of \<open>100 \<times> 100\<close> below, and the same square duplicated to a
  second page, which is not reported in \<^verbatim>\<open>clippedPages\<close>. (On rectangles and bounds with
  no negative width or height the claim holds: \<open>clipPosition_clamps\<close>,
  \<open>clipPosition_flag\<close>, \<open>clipRect_flag\<close> and \<open>clipRect_edge_inclusive\<close>.)
\<close>

theorem negative_width_changed_unflagged:
  "clipRectToPageBounds
     \<lparr>origin = \<lparr>x = 10, y = 10\<rparr>, size_rect = \<lparr>width = - 5, height = 20\<rparr>\<rparr>
     \<lparr>width = 100, height = 100\<rparr> =
     (\<lparr>origin = \<lparr>x = 10, y = 10\<rparr>, size_rect = \<lparr>width = 0, height = 20\<rparr>\<rparr>, False) \<and>
   generateDuplicateAnnotations testUuid testClock
      (createSquareAnnotation ''anno'' 0 10 10 (- 5) 20)
      [createMockPage 0 612 792 Degree0, createMockPage 1 612 792 Degree0] no_options world0 =
     (Inr \<lparr>annotations =
             [(createSquareAnnotation ''anno'' 0 10 10 0 20)
                \<lparr>id_anno := ''u'', pageIndex := 1, created := Some 1000\<rparr>],
           clippedPages = []\<rparr>,
      \<lparr>idsDrawn = 1, clockReads = 1, console = []\<rparr>)"
  by (simp add: engine_defs fixture_defs Let_def)

theorem negative_width_changed_unflagged_witness:
  "fst (clipRectToPageBounds
          \<lparr>origin = \<lparr>x = 10, y = 10\<rparr>, size_rect = \<lparr>width = - 5, height = 20\<rparr>\<rparr>
          \<lparr>width = 100, height = 100\<rparr>)
     \<noteq> \<lparr>origin = \<lparr>x = 10, y = 10\<rparr>, size_rect = \<lparr>width = - 5, height = 20\<rparr>\<rparr> \<and>
   snd (clipRectToPageBounds
          \<lparr>origin = \<lparr>x = 10, y = 10\<rparr>, size_rect = \<lparr>width = - 5, height = 20\<rparr>\<rparr>
          \<lparr>width = 100, height = 100\<rparr>) = False"
  using negative_width_changed_unflagged by simp

subsection \<open>Duplicates on pages of the same size\<close>

text \<open>
  Claim C6, amended. When the source annotation's geometry lies within the stored size of
  the source page, a target page with rotation 0 that is at least as large (in
  particular, of the same size) gets the source's rectangle and points unchanged, the
  flag is not set, and the page is not added to \<^verbatim>\<open>clippedPages\<close>. The claim as stated
  covers every source annotation. The counterexample below is a square on a source page
  that is rotated by 90 degrees: it lies within that page's effective size, 792 by 612,
  and beyond the right edge of a target page of the same stored size, 612 by 792, with
  rotation 0, which clips it.
\<close>

theorem fitting_geometry_is_reproduced:
  assumes "geometryWithin src (size_page sourcePage)"
    and "rotation targetPage = Degree0"
    and "width (size_page sourcePage) \<le> width (size_page targetPage)"
    and "height (size_page sourcePage) \<le> height (size_page targetPage)"
  shows
    "rect (fst (createDuplicateAnnotation uuid clock src sourcePage targetPage w)) = rect src \<and>
     shape (fst (createDuplicateAnnotation uuid clock src sourcePage targetPage w)) = shape src \<and>
     fst (snd (createDuplicateAnnotation uuid clock src sourcePage targetPage w)) = False \<and>
     (targetPage \<in> set pages \<and> distinct (map index pages) \<longrightarrow>
        (\<forall>res w'. generateDuplicateAnnotations uuid clock src pages options w = (Inr res, w')
            \<longrightarrow> index targetPage \<notin> set (clippedPages res)))"
proof -
  have "effectiveSize targetPage = size_page targetPage"
    using assms(2) by (simp add: effectiveSize_def)
  with assms have "geometryWithin src (getRotatedPageSize targetPage)"
    by (simp add: getRotatedPageSize_effectiveSize geometryWithin_mono)
  then have fixed: "transformAnnotationForTargetPage src sp targetPage = (src, False)" for sp
    by (rule transform_fixed)
  have "index targetPage \<notin> set (clippedPages res)"
    if tp: "targetPage \<in> set pages" and d: "distinct (map index pages)"
      and g: "generateDuplicateAnnotations uuid clock src pages options w = (Inr res, w')"
    for res w'
  proof
    assume mem: "index targetPage \<in> set (clippedPages res)"
    from g obtain sp where sp: "find (\<lambda>p. index p = pageIndex src) pages = Some sp"
      by (rule generate_Inr_found)
    from g mem obtain p where p: "p \<in> set (eligiblePages options src pages)"
      "snd (transformAnnotationForTargetPage src sp p)" "index p = index targetPage"
      unfolding generate_found [OF sp] by auto
    from p(1) have "p \<in> set pages" using set_eligiblePages by blast
    with d tp p(3) have "p = targetPage" by (simp add: page_by_index)
    with p(2) fixed show False by simp
  qed
  then show ?thesis
    by (simp add: createDuplicateAnnotation_eq fixed)
qed

theorem fitting_geometry_is_reproduced_witness:
  "rect (fst (createDuplicateAnnotation testUuid testClock
        (createSquareAnnotation ''anno'' 0 100 100 0 0)
        (createMockPage 0 612 792 Degree0) (createMockPage 1 612 792 Degree0) world0)) =
     \<lparr>origin = \<lparr>x = 100, y = 100\<rparr>, size_rect = \<lparr>width = 0, height = 0\<rparr>\<rparr> \<and>
   fst (snd (createDuplicateAnnotation testUuid testClock
        (createSquareAnnotation ''anno'' 0 100 100 0 0)
        (createMockPage 0 612 792 Degree0) (createMockPage 1 612 792 Degree0) world0)) = False \<and>
   (\<exists>res w'. generateDuplicateAnnotations testUuid testClock
        (createSquareAnnotation ''anno'' 0 100 100 0 0)
        [createMockPage 0 612 792 Degree0, createMockPage 1 612 792 Degree0]
        no_options world0 = (Inr res, w') \<and> 1 \<notin> set (clippedPages res))"
proof -
  let ?src = "createSquareAnnotation ''anno'' 0 100 100 0 0"
  let ?sp = "createMockPage 0 612 792 Degree0"
  let ?tp = "createMockPage 1 612 792 Degree0"
  let ?pages = "[?sp, ?tp]"
  have h1: "geometryWithin ?src (size_page ?sp)"
    by (simp add: geometryWithin_def rectWithin_def createSquareAnnotation_def)
  have h2: "rotation ?tp = Degree0" by simp
  have h3: "width (size_page ?sp) \<le> width (size_page ?tp)" by simp
  have h4: "height (size_page ?sp) \<le> height (size_page ?tp)" by simp
  have h5: "?tp \<in> set ?pages \<and> distinct (map index ?pages)" by simp
  have r: "rect ?src = \<lparr>origin = \<lparr>x = 100, y = 100\<rparr>, size_rect = \<lparr>width = 0, height = 0\<rparr>\<rparr>"
    by (simp add: createSquareAnnotation_def)
  obtain res w' where g: "generateDuplicateAnnotations testUuid testClock ?src ?pages
        no_options world0 = (Inr res, w')"
    using generate_returns [of ?pages ?src testUuid testClock no_options world0] by auto
  note t = fitting_geometry_is_reproduced [OF h1 h2 h3 h4, of testUuid testClock world0 ?pages
      no_options]
  from t h5 g have "index ?tp \<notin> set (clippedPages res)" by blast
  then have "1 \<notin> set (clippedPages res)" by simp
  with g t r show ?thesis by (intro conjI exI) simp_all
qed

theorem rotated_source_page_counterexample:
  "size_page (createMockPage 1 612 792 Degree0) = size_page (createMockPage 0 612 792 Degree90) \<and>
   rotation (createMockPage 1 612 792 Degree0) = Degree0 \<and>
   geometryWithin (createSquareAnnotation ''anno-1'' 0 700 100 50 50)
     (effectiveSize (createMockPage 0 612 792 Degree90)) \<and>
   rect (createSquareAnnotation ''anno-1'' 0 700 100 50 50) =
     \<lparr>origin = \<lparr>x = 700, y = 100\<rparr>, size_rect = \<lparr>width = 50, height = 50\<rparr>\<rparr> \<and>
   rect (fst (createDuplicateAnnotation testUuid testClock
        (createSquareAnnotation ''anno-1'' 0 700 100 50 50)
        (createMockPage 0 612 792 Degree90) (createMockPage 1 612 792 Degree0) world0)) =
     \<lparr>origin = \<lparr>x = 612, y = 100\<rparr>, size_rect = \<lparr>width = 0, height = 50\<rparr>\<rparr> \<and>
   fst (snd (createDuplicateAnnotation testUuid testClock
        (createSquareAnnotation ''anno-1'' 0 700 100 50 50)
        (createMockPage 0 612 792 Degree90) (createMockPage 1 612 792 Degree0) world0)) = True"
  by (simp add: createDuplicateAnnotation_eq transform_defs getRotatedPageSize_def
        clipRectToPageBounds_def clamp_def Let_def createSquareAnnotation_def
        geometryWithin_def rectWithin_def effectiveSize_def)

subsection \<open>Fresh identifiers\<close>

text \<open>
  Claim C7. The contract of the generator: no two of its calls return the same string,
  and it never returns an identifier that exists already (the set \<open>existing\<close>, which
  holds the source annotation's). Under it the identifiers of the returned annotations
  are pairwise different, none is the source's or an existing one, and each is the
  string the generator handed out at its call, never a copy of the source's.
\<close>

theorem duplicate_ids_are_fresh:
  assumes "inj uuid"
    and "\<forall>k. uuid k \<notin> existing"
    and "id_anno src \<in> existing"
    and "generateDuplicateAnnotations uuid clock src pages options w = (Inr res, w')"
  shows "distinct (map id_anno (annotations res)) \<and>
         list_all (\<lambda>a. id_anno a \<noteq> id_anno src \<and> id_anno a \<notin> existing) (annotations res) \<and>
         map id_anno (annotations res) =
           map uuid [idsDrawn w ..< idsDrawn w + length (annotations res)]"
proof -
  from assms(4) obtain sp where sp: "find (\<lambda>p. index p = pageIndex src) pages = Some sp"
    by (rule generate_Inr_found)
  let ?ts = "eligiblePages options src pages"
  from assms(4) have res: "annotations res =
      duplicatesFrom uuid clock src sp (idsDrawn w) (clockReads w) ?ts"
    unfolding generate_found [OF sp] by auto
  have ids: "map id_anno (annotations res) =
      map uuid [idsDrawn w ..< idsDrawn w + length (annotations res)]"
    by (simp add: res id_duplicatesFrom)
  have d: "distinct (map id_anno (annotations res))"
    by (subst ids) (simp add: distinct_map inj_on_subset [OF assms(1)])
  have ne: "uuid k \<noteq> id_anno src" for k
    using assms(2,3) by metis
  have "\<forall>i\<in>set (map id_anno (annotations res)). i \<noteq> id_anno src \<and> i \<notin> existing"
    by (subst ids) (use assms(2) ne in auto)
  then have "list_all (\<lambda>a. id_anno a \<noteq> id_anno src \<and> id_anno a \<notin> existing) (annotations res)"
    by (simp add: list_all_iff)
  with d ids show ?thesis by blast
qed

theorem duplicate_ids_are_fresh_witness:
  "\<exists>res w'. generateDuplicateAnnotations testUuid testClock
        (createSquareAnnotation ''original-id'' 0 100 100 50 50)
        [createMockPage 0 612 792 Degree0, createMockPage 1 612 792 Degree0,
         createMockPage 2 612 792 Degree0]
        no_options world0 = (Inr res, w') \<and>
      distinct (map id_anno (annotations res)) \<and>
      list_all (\<lambda>a. id_anno a \<noteq> ''original-id'' \<and> id_anno a \<notin> {''original-id'', ''other''})
        (annotations res)"
proof -
  let ?src = "createSquareAnnotation ''original-id'' 0 100 100 50 50"
  let ?pages = "[createMockPage 0 612 792 Degree0, createMockPage 1 612 792 Degree0,
         createMockPage 2 612 792 Degree0]"
  let ?existing = "{''original-id'', ''other''}"
  have h2: "\<forall>k. testUuid k \<notin> ?existing" by (simp add: testUuid_def)
  have h3: "id_anno ?src \<in> ?existing" by simp
  obtain res w' where g: "generateDuplicateAnnotations testUuid testClock ?src ?pages
        no_options world0 = (Inr res, w')"
    using generate_returns [of ?pages ?src testUuid testClock no_options world0] by auto
  note t = duplicate_ids_are_fresh [OF inj_testUuid h2 h3 g]
  from t have d: "distinct (map id_anno (annotations res))"
    by (rule conjunct1)
  from t have "list_all (\<lambda>a. id_anno a \<noteq> id_anno ?src \<and> id_anno a \<notin> ?existing)
      (annotations res)"
    by (elim conjE)
  then have l: "list_all (\<lambda>a. id_anno a \<noteq> ''original-id'' \<and> id_anno a \<notin> ?existing)
      (annotations res)"
    by (simp only: fixture_fields)
  from g d l show ?thesis by (intro exI conjI)
qed

subsection \<open>The source page has no influence\<close>

text \<open>
  Claim C8, amended. The source page argument of \<^verbatim>\<open>createDuplicateAnnotation\<close> has no
  influence on its result. For two calls that differ only in the size and rotation of the
  pages that carry the source annotation's page index: when \<^verbatim>\<open>includeSourcePage\<close> is
  false or absent, the two outcomes are the same; whatever the option is, the annotations
  with another page index than the source's are the same in both results, and so are
  the entries of \<^verbatim>\<open>clippedPages\<close> other than the source's page index. The claim as
  stated covers \<^verbatim>\<open>includeSourcePage: true\<close> too; there the source page is a target,
  and the annotation made for it is clipped against its size, as the counterexample
  below shows.
\<close>

theorem source_page_geometry_is_unused:
  "createDuplicateAnnotation uuid clock src sourcePage1 targetPage w =
     createDuplicateAnnotation uuid clock src sourcePage2 targetPage w \<and>
   (samePagesExcept (pageIndex src) pages pages' \<and> includeSourcePage options \<noteq> Some True \<longrightarrow>
      generateDuplicateAnnotations uuid clock src pages options w =
        generateDuplicateAnnotations uuid clock src pages' options w) \<and>
   (samePagesExcept (pageIndex src) pages pages' \<longrightarrow>
      (\<forall>res w1. generateDuplicateAnnotations uuid clock src pages options w = (Inr res, w1) \<longrightarrow>
         (\<exists>res' w2. generateDuplicateAnnotations uuid clock src pages' options w = (Inr res', w2) \<and>
            list_all2 (\<lambda>a a'. pageIndex a = pageIndex a' \<and> (pageIndex a = pageIndex src \<or> a = a'))
              (annotations res) (annotations res') \<and>
            filter (\<lambda>j. j \<noteq> pageIndex src) (clippedPages res) =
              filter (\<lambda>j. j \<noteq> pageIndex src) (clippedPages res'))))"
proof (intro conjI impI allI)
  show "createDuplicateAnnotation uuid clock src sourcePage1 targetPage w =
     createDuplicateAnnotation uuid clock src sourcePage2 targetPage w"
    by (simp add: createDuplicateAnnotation_eq
          transform_sourcePage_unused [of src sourcePage1 targetPage sourcePage2])
next
  assume a: "samePagesExcept (pageIndex src) pages pages' \<and> includeSourcePage options \<noteq> Some True"
  then have same: "samePagesExcept (pageIndex src) pages pages'" by simp
  from a have ts: "eligiblePages options src pages = eligiblePages options src pages'"
    by (simp add: eligiblePages_def samePagesExcept_skipped)
  show "generateDuplicateAnnotations uuid clock src pages options w =
        generateDuplicateAnnotations uuid clock src pages' options w"
  proof (cases "find (\<lambda>p. index p = pageIndex src) pages")
    case None
    with samePagesExcept_find [OF same] have "find (\<lambda>p. index p = pageIndex src) pages' = None"
      by simp
    with None show ?thesis by (simp add: generate_missing)
  next
    case (Some sp)
    with samePagesExcept_find [OF same] obtain sp' where
      sp': "find (\<lambda>p. index p = pageIndex src) pages' = Some sp'"
      by (cases "find (\<lambda>p. index p = pageIndex src) pages'") auto
    show ?thesis
      unfolding generate_found [OF Some] generate_found [OF sp'] ts
      by (simp add: duplicatesFrom_sourcePage_unused [of uuid clock src sp _ _ _ sp']
            transform_sourcePage_unused [of src sp _ sp'])
  qed
next
  fix res w1
  assume same: "samePagesExcept (pageIndex src) pages pages'"
    and g: "generateDuplicateAnnotations uuid clock src pages options w = (Inr res, w1)"
  from g obtain sp where sp: "find (\<lambda>p. index p = pageIndex src) pages = Some sp"
    by (rule generate_Inr_found)
  with samePagesExcept_find [OF same] obtain sp' where
    sp': "find (\<lambda>p. index p = pageIndex src) pages' = Some sp'"
    by (cases "find (\<lambda>p. index p = pageIndex src) pages'") auto
  have ts: "samePagesExcept (pageIndex src)
      (eligiblePages options src pages) (eligiblePages options src pages')"
    using same by (simp add: eligiblePages_def samePagesExcept_filter)
  from g have res: "annotations res = duplicatesFrom uuid clock src sp (idsDrawn w) (clockReads w)
        (eligiblePages options src pages)"
    "clippedPages res = map index (filter (\<lambda>p. snd (transformAnnotationForTargetPage src sp p))
        (eligiblePages options src pages))"
    unfolding generate_found [OF sp] by auto
  show "\<exists>res' w2. generateDuplicateAnnotations uuid clock src pages' options w = (Inr res', w2) \<and>
      list_all2 (\<lambda>a a'. pageIndex a = pageIndex a' \<and> (pageIndex a = pageIndex src \<or> a = a'))
        (annotations res) (annotations res') \<and>
      filter (\<lambda>j. j \<noteq> pageIndex src) (clippedPages res) =
        filter (\<lambda>j. j \<noteq> pageIndex src) (clippedPages res')"
    unfolding generate_found [OF sp'] res
    using duplicatesFrom_samePagesExcept [OF ts, of uuid clock sp "idsDrawn w" "clockReads w" sp']
      clipped_samePagesExcept [OF ts, of sp sp']
    by simp
qed

theorem source_page_geometry_is_unused_witness:
  "generateDuplicateAnnotations testUuid testClock
      (createSquareAnnotation ''anno-1'' 0 400 500 100 100)
      [createMockPage 0 612 792 Degree0, createMockPage 1 300 400 Degree0] no_options world0 =
   generateDuplicateAnnotations testUuid testClock
      (createSquareAnnotation ''anno-1'' 0 400 500 100 100)
      [createMockPage 0 200 100 Degree90, createMockPage 1 300 400 Degree0] no_options world0 \<and>
   (\<exists>res' w2. generateDuplicateAnnotations testUuid testClock
      (createSquareAnnotation ''anno-1'' 0 400 500 100 100)
      [createMockPage 0 200 100 Degree90, createMockPage 1 300 400 Degree0]
      \<lparr>includeSourcePage = Some True\<rparr> world0 = (Inr res', w2) \<and>
      map pageIndex (annotations res') = [0, 1] \<and>
      rect (annotations res' ! 1) =
        \<lparr>origin = \<lparr>x = 300, y = 400\<rparr>, size_rect = \<lparr>width = 0, height = 0\<rparr>\<rparr> \<and>
      filter (\<lambda>j. j \<noteq> 0) (clippedPages res') = [1])"
proof (intro conjI)
  let ?src = "createSquareAnnotation ''anno-1'' 0 400 500 100 100"
  let ?pages = "[createMockPage 0 612 792 Degree0, createMockPage 1 300 400 Degree0]"
  let ?pages' = "[createMockPage 0 200 100 Degree90, createMockPage 1 300 400 Degree0]"
  have h: "samePagesExcept (pageIndex ?src) ?pages ?pages' \<and>
      includeSourcePage no_options \<noteq> Some True"
    by (simp add: samePagesExcept_def)
  from source_page_geometry_is_unused [of testUuid testClock ?src _ _ world0 _ ?pages ?pages'
      no_options] h
  show "generateDuplicateAnnotations testUuid testClock ?src ?pages no_options world0 =
      generateDuplicateAnnotations testUuid testClock ?src ?pages' no_options world0"
    by blast
next
  let ?src = "createSquareAnnotation ''anno-1'' 0 400 500 100 100"
  let ?pages = "[createMockPage 0 612 792 Degree0, createMockPage 1 300 400 Degree0]"
  let ?pages' = "[createMockPage 0 200 100 Degree90, createMockPage 1 300 400 Degree0]"
  let ?opts = "\<lparr>includeSourcePage = Some True\<rparr>"
  let ?a0 = "?src\<lparr>id_anno := ''u'', created := Some 1000\<rparr>"
  let ?a1 = "?src\<lparr>id_anno := ''uu'', pageIndex := 1, created := Some 1001,
      rect := \<lparr>origin = \<lparr>x = 300, y = 400\<rparr>, size_rect = \<lparr>width = 0, height = 0\<rparr>\<rparr>\<rparr>"
  have h: "samePagesExcept (pageIndex ?src) ?pages ?pages'"
    by (simp add: samePagesExcept_def)
  have g: "generateDuplicateAnnotations testUuid testClock ?src ?pages ?opts world0 =
      (Inr \<lparr>annotations = [?a0, ?a1], clippedPages = [1]\<rparr>,
       \<lparr>idsDrawn = 2, clockReads = 2, console = [ClipWarning ''anno-1'' 1 300 400]\<rparr>)"
    by (simp add: engine_defs fixture_defs Let_def)
  note t3 = source_page_geometry_is_unused [of testUuid testClock ?src _ _ world0 _ ?pages ?pages'
      ?opts, THEN conjunct2, THEN conjunct2, rule_format, OF h g]
  from t3 obtain res' w2 where r:
    "generateDuplicateAnnotations testUuid testClock ?src ?pages' ?opts world0 = (Inr res', w2)"
    "list_all2 (\<lambda>a a'. pageIndex a = pageIndex a' \<and> (pageIndex a = pageIndex ?src \<or> a = a'))
       [?a0, ?a1] (annotations res')"
    "filter (\<lambda>j. j \<noteq> pageIndex ?src) [1] = filter (\<lambda>j. j \<noteq> pageIndex ?src) (clippedPages res')"
    by (auto simp only: DuplicateAnnotationResult.select_convs)
  from r(2) obtain b0 b1 where b: "annotations res' = [b0, b1]" "pageIndex b0 = 0"
    "pageIndex b1 = 1" "b1 = ?a1"
    by (auto simp add: list_all2_Cons1 createSquareAnnotation_def)
  from r(3) have c: "filter (\<lambda>j. j \<noteq> 0) (clippedPages res') = [1]" by simp
  from r(1) b c
  show "\<exists>res' w2. generateDuplicateAnnotations testUuid testClock ?src ?pages' ?opts world0 =
        (Inr res', w2) \<and>
      map pageIndex (annotations res') = [0, 1] \<and>
      rect (annotations res' ! 1) =
        \<lparr>origin = \<lparr>x = 300, y = 400\<rparr>, size_rect = \<lparr>width = 0, height = 0\<rparr>\<rparr> \<and>
      filter (\<lambda>j. j \<noteq> 0) (clippedPages res') = [1]"
    by (intro exI conjI) simp_all
qed

theorem included_source_page_counterexample:
  "samePagesExcept 0 [createMockPage 0 612 792 Degree0] [createMockPage 0 300 400 Degree0] \<and>
   generateDuplicateAnnotations testUuid testClock
      (createSquareAnnotation ''anno-1'' 0 400 500 100 100)
      [createMockPage 0 612 792 Degree0] \<lparr>includeSourcePage = Some True\<rparr> world0 =
     (Inr \<lparr>annotations =
             [(createSquareAnnotation ''anno-1'' 0 400 500 100 100)
                \<lparr>id_anno := ''u'', created := Some 1000\<rparr>],
           clippedPages = []\<rparr>,
      \<lparr>idsDrawn = 1, clockReads = 1, console = []\<rparr>) \<and>
   generateDuplicateAnnotations testUuid testClock
      (createSquareAnnotation ''anno-1'' 0 400 500 100 100)
      [createMockPage 0 300 400 Degree0] \<lparr>includeSourcePage = Some True\<rparr> world0 =
     (Inr \<lparr>annotations =
             [(createSquareAnnotation ''anno-1'' 0 300 400 0 0)
                \<lparr>id_anno := ''u'', created := Some 1000\<rparr>],
           clippedPages = [0]\<rparr>,
      \<lparr>idsDrawn = 1, clockReads = 1, console = [ClipWarning ''anno-1'' 0 300 400]\<rparr>)"
  by (simp add: engine_defs fixture_defs samePagesExcept_def Let_def)

subsection \<open>The fields that are not written\<close>

text \<open>
  Claim C9. An annotation returned by the call differs from the source annotation at
  most in \<^verbatim>\<open>id\<close>, \<^verbatim>\<open>pageIndex\<close>, \<^verbatim>\<open>created\<close>, \<^verbatim>\<open>rect\<close> and the coordinate
  data of its kind: putting the source's values back gives the source annotation. So the
  type, the colour, stroke colour, stroke width, stroke style, opacity, flags, icon and
  every further attribute are the source's.
\<close>

theorem other_fields_are_copied:
  assumes "generateDuplicateAnnotations uuid clock src pages options w = (Inr res, w')"
    and "a \<in> set (annotations res)"
  shows "a\<lparr>id_anno := id_anno src, pageIndex := pageIndex src, created := created src,
           rect := rect src, shape := shape src\<rparr> = src \<and>
         type_anno (shape a) = type_anno (shape src) \<and>
         color a = color src \<and> strokeColor a = strokeColor src \<and>
         strokeWidth a = strokeWidth src \<and> strokeStyle a = strokeStyle src \<and>
         opacity a = opacity src \<and> flags a = flags src \<and> icon a = icon src \<and>
         PdfAnnotationObject.more a = PdfAnnotationObject.more src"
proof -
  from assms(1) obtain sp where sp: "find (\<lambda>p. index p = pageIndex src) pages = Some sp"
    by (rule generate_Inr_found)
  from assms have "a \<in> set (duplicatesFrom uuid clock src sp (idsDrawn w) (clockReads w)
      (eligiblePages options src pages))"
    unfolding generate_found [OF sp] by auto
  then have f: "a\<lparr>id_anno := id_anno src, pageIndex := pageIndex src, created := created src,
           rect := rect src, shape := shape src\<rparr> = src"
    and t: "type_anno (shape a) = type_anno (shape src)"
    using duplicatesFrom_frame by blast+
  have "color a = color src \<and> strokeColor a = strokeColor src \<and>
         strokeWidth a = strokeWidth src \<and> strokeStyle a = strokeStyle src \<and>
         opacity a = opacity src \<and> flags a = flags src \<and> icon a = icon src \<and>
         PdfAnnotationObject.more a = PdfAnnotationObject.more src"
    by (subst (1 2 3 4 5 6 7 8) f [symmetric]) simp
  with f t show ?thesis by blast
qed

theorem other_fields_are_copied_witness:
  "\<exists>res w'. generateDuplicateAnnotations testUuid testClock
        (createLineAnnotation ''line-1'' 0 100 100 200 200)
        [createMockPage 0 612 792 Degree0, createMockPage 1 100 100 Degree0]
        no_options world0 = (Inr res, w') \<and>
      color (hd (annotations res)) = Some ''#00FF00'' \<and>
      strokeColor (hd (annotations res)) = Some ''#000000'' \<and>
      strokeWidth (hd (annotations res)) = Some 1 \<and>
      strokeStyle (hd (annotations res)) = Some SOLID \<and>
      opacity (hd (annotations res)) = Some 1 \<and>
      type_anno (shape (hd (annotations res))) = LineType"
proof -
  let ?src = "createLineAnnotation ''line-1'' 0 100 100 200 200"
  let ?pages = "[createMockPage 0 612 792 Degree0, createMockPage 1 100 100 Degree0]"
  obtain res w' where g: "generateDuplicateAnnotations testUuid testClock ?src ?pages
        no_options world0 = (Inr res, w')"
    using generate_returns [of ?pages ?src testUuid testClock no_options world0] by auto
  have "length (annotations res) = 1"
    using generate_length [OF g] by (simp add: eligiblePages_def eligible_def)
  then have m: "hd (annotations res) \<in> set (annotations res)"
    by (cases "annotations res") simp_all
  let ?h = "hd (annotations res)"
  note t = other_fields_are_copied [OF g m]
  from t have "color ?h = color ?src \<and> strokeColor ?h = strokeColor ?src \<and>
      strokeWidth ?h = strokeWidth ?src \<and> strokeStyle ?h = strokeStyle ?src \<and>
      opacity ?h = opacity ?src \<and> type_anno (shape ?h) = type_anno (shape ?src)"
    by (elim conjE) (intro conjI)
  then have "color ?h = Some ''#00FF00'' \<and> strokeColor ?h = Some ''#000000'' \<and>
      strokeWidth ?h = Some 1 \<and> strokeStyle ?h = Some SOLID \<and>
      opacity ?h = Some 1 \<and> type_anno (shape ?h) = LineType"
    by (simp add: createLineAnnotation_def Let_def)
  with g show ?thesis
    by (intro exI conjI) (elim conjE, assumption)+
qed

subsection \<open>The clipped pages\<close>

text \<open>
  Claim C10. When the page indexes are unique, \<^verbatim>\<open>clippedPages\<close> has no duplicates, is a
  subsequence of the page indexes in input order, holds exactly the indexes of the target
  pages on which the transform reported clipping, and each entry is the page index of
  exactly one returned annotation.
\<close>

theorem clipped_pages_are_flagged_targets:
  assumes "distinct (map index pages)"
    and "generateDuplicateAnnotations uuid clock src pages options w = (Inr res, w')"
  shows "distinct (clippedPages res) \<and>
         subseq (clippedPages res) (map index pages) \<and>
         (\<forall>sp. clippedPages res =
            map index (filter (\<lambda>p. snd (transformAnnotationForTargetPage src sp p))
                         (eligiblePages options src pages))) \<and>
         list_all (\<lambda>i. length (filter (\<lambda>a. pageIndex a = i) (annotations res)) = 1)
           (clippedPages res)"
proof -
  from assms(2) obtain sp where sp: "find (\<lambda>p. index p = pageIndex src) pages = Some sp"
    by (rule generate_Inr_found)
  let ?ts = "eligiblePages options src pages"
  let ?cs = "filter (\<lambda>p. snd (transformAnnotationForTargetPage src sp p)) ?ts"
  from assms(2) have c: "clippedPages res = map index ?cs"
    and a: "annotations res = duplicatesFrom uuid clock src sp (idsDrawn w) (clockReads w) ?ts"
    unfolding generate_found [OF sp] by auto
  have dts: "distinct (map index ?ts)"
    using assms(1) by (simp add: eligiblePages_def distinct_map_filter)
  then have d: "distinct (clippedPages res)"
    by (simp add: c distinct_map_filter)
  have "subseq ?cs pages"
    by (rule subseq_order.trans [OF subseq_filter_left]) (simp add: eligiblePages_def)
  then have s: "subseq (clippedPages res) (map index pages)"
    by (simp add: c subseq_map)
  have ch: "clippedPages res =
      map index (filter (\<lambda>p. snd (transformAnnotationForTargetPage src sp' p)) ?ts)" for sp'
    by (simp add: c transform_sourcePage_unused [of src sp _ sp'])
  have pi: "map pageIndex (annotations res) = map index ?ts"
    by (simp add: a pageIndex_duplicatesFrom)
  have "length (filter (\<lambda>a. pageIndex a = i) (annotations res)) = 1"
    if "i \<in> set (clippedPages res)" for i
  proof -
    from that have "i \<in> set (map index ?ts)" by (auto simp add: c)
    with dts have "length (filter (\<lambda>j. j = i) (map pageIndex (annotations res))) = 1"
      by (simp only: pi one_occurrence)
    then show ?thesis by (simp add: filter_map comp_def)
  qed
  then have "list_all (\<lambda>i. length (filter (\<lambda>a. pageIndex a = i) (annotations res)) = 1)
      (clippedPages res)"
    by (simp add: list_all_iff)
  with d s ch show ?thesis by blast
qed

theorem clipped_pages_are_flagged_targets_witness:
  "\<exists>res w'. generateDuplicateAnnotations testUuid testClock
        (createSquareAnnotation ''anno-1'' 0 400 500 100 100)
        [createMockPage 0 612 792 Degree0, createMockPage 1 300 400 Degree0,
         createMockPage 2 612 792 Degree0, createMockPage 3 792 450 Degree90]
        no_options world0 = (Inr res, w') \<and>
      clippedPages res = [1, 3] \<and>
      distinct (clippedPages res) \<and>
      subseq (clippedPages res) [0, 1, 2, 3] \<and>
      list_all (\<lambda>i. length (filter (\<lambda>a. pageIndex a = i) (annotations res)) = 1)
        (clippedPages res)"
proof -
  let ?src = "createSquareAnnotation ''anno-1'' 0 400 500 100 100"
  let ?pages = "[createMockPage 0 612 792 Degree0, createMockPage 1 300 400 Degree0,
         createMockPage 2 612 792 Degree0, createMockPage 3 792 450 Degree90]"
  have h: "distinct (map index ?pages)" by simp
  obtain res w' where g: "generateDuplicateAnnotations testUuid testClock ?src ?pages
        no_options world0 = (Inr res, w')"
    using generate_returns [of ?pages ?src testUuid testClock no_options world0] by auto
  note t = clipped_pages_are_flagged_targets [OF h g]
  from t have d: "distinct (clippedPages res)" by (rule conjunct1)
  from t have "subseq (clippedPages res) (map index ?pages)" by (elim conjE)
  then have s: "subseq (clippedPages res) [0, 1, 2, 3]" by simp
  from t have "clippedPages res =
      map index (filter (\<lambda>p. snd (transformAnnotationForTargetPage ?src (hd ?pages) p))
                   (eligiblePages no_options ?src ?pages))"
    by (elim conjE allE)
  then have c: "clippedPages res = [1, 3]"
    by (simp add: eligiblePages_def eligible_def transform_defs getRotatedPageSize_def
          clipRectToPageBounds_def clamp_def Let_def createSquareAnnotation_def)
  from t have l: "list_all (\<lambda>i. length (filter (\<lambda>a. pageIndex a = i) (annotations res)) = 1)
        (clippedPages res)"
    by (elim conjE)
  from g c d s l show ?thesis by (intro exI conjI)
qed

end
